theory Spec2Isabelle
  imports Complex_Main
begin

section \<open>RaceBox drag timer: the sample pipeline and the run life cycle\<close>

text \<open>
  The development embeds the most complete iteration of the position handler (the one
  with the \<open>finished\<close> flag): the configuration table, the Kalman filter object, the
  geometry helpers, \<open>finishRun\<close>, \<open>onPos\<close> and the commands \<open>arm\<close>, \<open>stop\<close> and
  \<open>resetAll\<close>.

  JavaScript numbers are modelled as real numbers: rounding, infinities, NaN and signed
  zeros of IEEE doubles are not represented. The module-level variables of the source
  are the fields of the record \<open>state\<close>; what the handler reads from its surroundings
  (the two clock readings, the mode selector, the rollout check box) is an explicit
  argument. Writes to display elements are not modelled, except the status line.
\<close>

subsection \<open>Configuration\<close>

definition GHOST_THRESHOLD_KMH :: real where "GHOST_THRESHOLD_KMH = 2.5"
definition START_THRESHOLD_KMH :: real where "START_THRESHOLD_KMH = 3"
definition START_WINDOW_MS :: real where "START_WINDOW_MS = 450"
definition SPEED_SMOOTH_ALPHA :: real where "SPEED_SMOOTH_ALPHA = 0.25"
definition KALMAN_Q :: real where "KALMAN_Q = 0.1"
definition KALMAN_R :: real where "KALMAN_R = 2.0"
definition HEADING_MAX_DEG :: real where "HEADING_MAX_DEG = 25"
definition REBUILD_SPEED_MAX_DT :: real where "REBUILD_SPEED_MAX_DT = 1200"
definition ROLL_OUT_M :: real where "ROLL_OUT_M = 0.3048"
definition MILESTONES :: "nat list" where "MILESTONES = [20, 100, 201, 402]"

subsection \<open>Data\<close>

record pos =
  latitude :: real
  longitude :: real

text \<open>One call of the handler: \<open>p.coords\<close> together with the two readings of
  \<open>performance.now()\<close> the handler takes (\<open>now\<close> at the top, \<open>nowMs\<close> before start
  detection). \<open>speed\<close> is \<open>None\<close> when \<open>c.speed\<close> is not a number.\<close>

record position = pos +
  accuracy :: real
  speed :: "real option"
  now :: real
  nowMs :: real

text \<open>What the handler reads from the page: the value of the mode selector (\<open>None\<close> when
  the element is missing), the rollout check box (\<open>None\<close> when missing) and \<open>Date.now()\<close>.\<close>

record ui =
  modeSelect :: "string option"
  rolloutChk :: "bool option"
  dateNow :: real

record sample =
  smp_t :: real
  smp_speed :: real

record mark =
  mk_time :: real
  mk_speed :: real

record kalman_filter =
  k_x :: real
  k_p :: real
  k_q :: real
  k_r :: real

record run_record =
  rr_mode :: string
  rr_date :: real
  rr_peak :: real
  rr_marks :: "nat \<Rightarrow> mark option"
  rr_d20 :: "real option"
  rr_d100 :: "real option"
  rr_d201 :: "real option"
  rr_d402 :: "real option"
  rr_s20 :: "real option"
  rr_s100 :: "real option"
  rr_s201 :: "real option"
  rr_s402 :: "real option"
  rr_distance :: real
  rr_rollout :: bool

datatype status_line =
  Idle | ArmingRequestingGPS | ArmingWaitingGPSAccuracy | ArmedWaitingThrottle
  | Running | FinishRunComplete | Stopped | GPSError string

text \<open>The internal state of the source. \<open>watchId\<close> records whether a position watch is
  registered; \<open>None\<close> stands for \<open>null\<close> in the optional fields; a milestone whose entry
  in \<open>marks\<close> is \<open>None\<close> is \<open>null\<close> (or missing), which the source only ever tests for
  truthiness.\<close>

record state =
  watchId :: bool
  armed :: bool
  running :: bool
  finished :: bool
  startPos :: "pos option"
  lastPos :: "pos option"
  lastHeading :: "real option"
  cumulative :: real
  startTime :: "real option"
  peakSpeed :: real
  samples :: "sample list"
  graphSamples :: "sample list"
  marks :: "nat \<Rightarrow> mark option"
  kalmanState :: kalman_filter
  lastRun :: "run_record option"
  status :: status_line

subsection \<open>The Kalman filter object\<close>

definition kalman_predict :: "kalman_filter \<Rightarrow> kalman_filter" where
  "kalman_predict k = k\<lparr>k_p := k_p k + k_q k\<rparr>"

text \<open>\<open>update(z)\<close> returns \<open>this.x\<close>; here the new object is returned and the caller reads
  \<open>k_x\<close> from it.\<close>

definition kalman_update :: "kalman_filter \<Rightarrow> real \<Rightarrow> kalman_filter" where
  "kalman_update k0 z =
     (let k1 = kalman_predict k0;
          k = k_p k1 / (k_p k1 + k_r k1);
          k2 = k1\<lparr>k_x := k_x k1 + k * (z - k_x k1)\<rparr>
      in k2\<lparr>k_p := (1 - k) * k_p k2\<rparr>)"

definition kalman_gain :: "kalman_filter \<Rightarrow> real" where
  "kalman_gain k0 = k_p (kalman_predict k0) / (k_p (kalman_predict k0) + k_r (kalman_predict k0))"

definition kalman_reset :: "kalman_filter \<Rightarrow> real \<Rightarrow> kalman_filter" where
  "kalman_reset k v = k\<lparr>k_x := v, k_p := 1\<rparr>"

subsection \<open>Geometry and small helpers\<close>

text \<open>The remainder operator \<open>%\<close> of JavaScript on numbers: the quotient is truncated
  towards zero, so the result has the sign of the dividend.\<close>

definition js_trunc :: "real \<Rightarrow> int" where
  "js_trunc v = (if 0 \<le> v then \<lfloor>v\<rfloor> else \<lceil>v\<rceil>)"

definition js_mod :: "real \<Rightarrow> real \<Rightarrow> real" where
  "js_mod a n = a - n * of_int (js_trunc (a / n))"

text \<open>\<open>Math.atan2(y, x)\<close> on real numbers.\<close>

definition atan2 :: "real \<Rightarrow> real \<Rightarrow> real" where
  "atan2 y x =
     (if 0 < x then arctan (y / x)
      else if x < 0 then (if 0 \<le> y then arctan (y / x) + pi else arctan (y / x) - pi)
      else if 0 < y then pi / 2
      else if y < 0 then - (pi / 2)
      else 0)"

definition hav :: "pos \<Rightarrow> pos \<Rightarrow> real" where
  "hav a b =
     (let R = 6371000; rad = pi / 180;
          dLat = (latitude b - latitude a) * rad; dLon = (longitude b - longitude a) * rad;
          la = latitude a * rad; lb = latitude b * rad;
          s1 = sin (dLat / 2); s2 = sin (dLon / 2);
          h = s1 * s1 + cos la * cos lb * s2 * s2
      in R * 2 * atan2 (sqrt h) (sqrt (1 - h)))"

definition headingDeg :: "pos \<Rightarrow> pos \<Rightarrow> real" where
  "headingDeg a b =
     (let rad = pi / 180;
          y = sin ((longitude b - longitude a) * rad) * cos (latitude b * rad);
          x = cos (latitude a * rad) * sin (latitude b * rad)
              - sin (latitude a * rad) * cos (latitude b * rad)
                * cos ((longitude b - longitude a) * rad);
          brad = atan2 y x
      in js_mod (brad * 180 / pi + 360) 360)"

text \<open>The expression \<open>Math.abs(((headingNow - lastHeading + 540) % 360) - 180)\<close>, which
  the handler writes out twice.\<close>

definition headingDiff :: "real \<Rightarrow> real \<Rightarrow> real" where
  "headingDiff headingNow lastH = \<bar>js_mod (headingNow - lastH + 540) 360 - 180\<bar>"

definition lowPass :: "real \<Rightarrow> real \<Rightarrow> real \<Rightarrow> real" where
  "lowPass prev cur alpha = alpha * cur + (1 - alpha) * prev"

definition rebuildSpeedFromDelta :: "real \<Rightarrow> real \<Rightarrow> real" where
  "rebuildSpeedFromDelta dMeters dtMs =
     (if dtMs \<le> 0 then 0 else (dMeters / (dtMs / 1000)) * 3.6)"

text \<open>\<open>resetMarks\<close>: a fresh object in which every milestone is \<open>null\<close>.\<close>

definition resetMarks :: "nat \<Rightarrow> mark option" where
  "resetMarks = foldl (\<lambda>mk m. mk(m := None)) (\<lambda>_. None) MILESTONES"

text \<open>\<open>c.latitude && c.longitude\<close>: a number is truthy unless it is zero.\<close>

definition truthy :: "real \<Rightarrow> bool" where
  "truthy v = (v \<noteq> 0)"

definition coordsOf :: "position \<Rightarrow> pos" where
  "coordsOf p = \<lparr>latitude = latitude p, longitude = longitude p\<rparr>"

definition rolloutChecked :: "ui \<Rightarrow> bool" where
  "rolloutChecked u = (case rolloutChk u of Some c \<Rightarrow> c | None \<Rightarrow> False)"

subsection \<open>finishRun\<close>

text \<open>\<open>finishRun\<close> sets the \<open>finished\<close> flag, stores the run record in
  \<open>window._lastRun\<close>, releases the watch and empties both sample buffers.\<close>

definition finishRun :: "ui \<Rightarrow> state \<Rightarrow> state" where
  "finishRun u s =
     (if finished s then s
      else
        let last = \<lparr>rr_mode = (case modeSelect u of Some v \<Rightarrow> v | None \<Rightarrow> []),
                    rr_date = dateNow u,
                    rr_peak = peakSpeed s,
                    rr_marks = marks s,
                    rr_d20 = map_option mk_time (marks s 20),
                    rr_d100 = map_option mk_time (marks s 100),
                    rr_d201 = map_option mk_time (marks s 201),
                    rr_d402 = map_option mk_time (marks s 402),
                    rr_s20 = map_option mk_speed (marks s 20),
                    rr_s100 = map_option mk_speed (marks s 100),
                    rr_s201 = map_option mk_speed (marks s 201),
                    rr_s402 = map_option mk_speed (marks s 402),
                    rr_distance = cumulative s,
                    rr_rollout = rolloutChecked u\<rparr>
        in s\<lparr>finished := True, running := False, armed := False,
              status := FinishRunComplete, lastRun := Some last, watchId := False,
              samples := [], graphSamples := []\<rparr>)"

subsection \<open>The position handler\<close>

text \<open>The time since the previous buffered sample (\<open>0\<close> when the buffer is empty).\<close>

definition onPos_dtMs :: "state \<Rightarrow> position \<Rightarrow> real" where
  "onPos_dtMs s p = (if samples s \<noteq> [] then now p - smp_t (last (samples s)) else 0)"

text \<open>The heading check of the reconstruction block: \<open>headingNow\<close> is computed only when a
  bearing is remembered, and the segment is refused when it differs from the remembered
  bearing by more than \<open>HEADING_MAX_DEG\<close>.\<close>

definition onPos_headingNow :: "state \<Rightarrow> pos \<Rightarrow> pos \<Rightarrow> real option" where
  "onPos_headingNow s lp cur =
     (case lastHeading s of None \<Rightarrow> None | Some _ \<Rightarrow> Some (headingDeg lp cur))"

definition onPos_headingOk :: "state \<Rightarrow> pos \<Rightarrow> pos \<Rightarrow> bool" where
  "onPos_headingOk s lp cur =
     (case lastHeading s of
        None \<Rightarrow> True
      | Some lh \<Rightarrow>
          (case onPos_headingNow s lp cur of
             None \<Rightarrow> True
           | Some hn \<Rightarrow> \<not> (headingDiff hn lh > HEADING_MAX_DEG)))"

text \<open>The first part of the handler: the raw speed in km/h, then the block guarded by
  \<open>lastPos && c.latitude && c.longitude\<close>, which overwrites \<open>lastHeading\<close> and may rebuild
  the speed from the position delta. The result is the measured speed before the ghost
  filter, and the new \<open>lastHeading\<close>.\<close>

definition onPos_measure :: "state \<Rightarrow> position \<Rightarrow> real option \<times> real option" where
  "onPos_measure s p =
     (let measuredSpeedKmh = map_option (\<lambda>v. v * 3.6) (speed p);
          dtMs = onPos_dtMs s p
      in case lastPos s of
           None \<Rightarrow> (measuredSpeedKmh, lastHeading s)
         | Some lp \<Rightarrow>
             if truthy (latitude p) \<and> truthy (longitude p) then
               let dDelta = hav lp (coordsOf p);
                   headingNow = onPos_headingNow s lp (coordsOf p);
                   headingOk = onPos_headingOk s lp (coordsOf p)
               in if (case measuredSpeedKmh of None \<Rightarrow> True | Some v \<Rightarrow> v < 0.5)
                     \<and> dtMs > 0 \<and> dtMs \<le> REBUILD_SPEED_MAX_DT \<and> headingOk
                  then (Some (rebuildSpeedFromDelta dDelta dtMs), headingNow)
                  else (measuredSpeedKmh, headingNow)
             else (measuredSpeedKmh, lastHeading s))"

definition ghostFilter :: "real option \<Rightarrow> real option" where
  "ghostFilter m =
     (case m of
        None \<Rightarrow> None
      | Some v \<Rightarrow> if v < GHOST_THRESHOLD_KMH then Some 0 else Some v)"

text \<open>The smoothed speed of this sample: Kalman update on the measurement in m/s (or the
  last buffered speed when there is no measurement), then the low-pass filter.\<close>

definition onPos_kalman :: "state \<Rightarrow> real option \<Rightarrow> kalman_filter" where
  "onPos_kalman s measured =
     (case measured of
        Some v \<Rightarrow> kalman_update (kalmanState s) (v / 3.6)
      | None \<Rightarrow> kalmanState s)"

definition onPos_smoothed :: "state \<Rightarrow> real option \<Rightarrow> real" where
  "onPos_smoothed s measured =
     (let smoothKmh =
            (case measured of
               Some v \<Rightarrow> k_x (onPos_kalman s measured) * 3.6
             | None \<Rightarrow> if samples s \<noteq> [] then smp_speed (last (samples s)) else 0);
          lastSmooth = (if samples s \<noteq> [] then smp_speed (last (samples s)) else smoothKmh)
      in lowPass lastSmooth smoothKmh SPEED_SMOOTH_ALPHA)"

text \<open>The speed the handler shows and stores for a sample.\<close>

definition smoothedOf :: "state \<Rightarrow> position \<Rightarrow> real" where
  "smoothedOf s p = onPos_smoothed s (ghostFilter (fst (onPos_measure s p)))"

text \<open>The state after the part of the handler that runs for every sample that is not
  ignored: heading memory, filter, both buffers (the new sample pushed, the rolling
  buffer pruned to three seconds, the graph buffer to 2000 entries) and peak speed.\<close>

definition onPos_sense :: "state \<Rightarrow> position \<Rightarrow> state" where
  "onPos_sense s p =
     (let measured = ghostFilter (fst (onPos_measure s p));
          smoothed = onPos_smoothed s measured;
          pushed = samples s @ [\<lparr>smp_t = now p, smp_speed = smoothed\<rparr>];
          graph = graphSamples s @ [\<lparr>smp_t = now p, smp_speed = smoothed\<rparr>]
      in s\<lparr>lastHeading := snd (onPos_measure s p),
            kalmanState := onPos_kalman s measured,
            samples := filter (\<lambda>x. now p - smp_t x \<le> 3000) pushed,
            graphSamples := (if length graph > 2000 then tl graph else graph),
            peakSpeed := (case measured of
                            Some v \<Rightarrow> if v > peakSpeed s then v else peakSpeed s
                          | None \<Rightarrow> peakSpeed s)\<rparr>)"

text \<open>The distance of the segment from \<open>lastPos\<close> to the new position, with the heading
  filter: \<open>0\<close> when the bearing turned by more than \<open>HEADING_MAX_DEG\<close> against the
  remembered one. The second component is the new \<open>lastHeading\<close>.\<close>

definition onPos_delta :: "pos option \<Rightarrow> real option \<Rightarrow> pos \<Rightarrow> real \<times> real option" where
  "onPos_delta lp lh cur =
     (case lp of
        None \<Rightarrow> (0, lh)
      | Some a \<Rightarrow>
          let dtmp = hav a cur; hNow = headingDeg a cur
          in (case lh of
                Some h \<Rightarrow> (if headingDiff hNow h \<le> HEADING_MAX_DEG then dtmp else 0, Some hNow)
              | None \<Rightarrow> (dtmp, Some hNow)))"

text \<open>Start detection: the samples of the rolling buffer no older than
  \<open>START_WINDOW_MS\<close>, none below \<open>START_THRESHOLD_KMH\<close>, at least one.\<close>

definition onPos_ready :: "sample list \<Rightarrow> real \<Rightarrow> bool" where
  "onPos_ready smps tnowMs =
     (let recent = filter (\<lambda>x. tnowMs - smp_t x \<le> START_WINDOW_MS) smps
      in length recent > 0 \<and> list_all (\<lambda>x. smp_speed x \<ge> START_THRESHOLD_KMH) recent)"

text \<open>The milestone loop.\<close>

definition captureMarks ::
  "(nat \<Rightarrow> mark option) \<Rightarrow> real \<Rightarrow> real \<Rightarrow> real \<Rightarrow> real \<Rightarrow> (nat \<Rightarrow> mark option)" where
  "captureMarks mks cum rolloutOffset elapsed smoothed =
     foldl (\<lambda>mk m. if mk m = None \<and> cum \<ge> real m - rolloutOffset
                    then mk(m \<mapsto> \<lparr>mk_time = elapsed, mk_speed = smoothed\<rparr>) else mk)
           mks MILESTONES"

text \<open>\<open>samples.slice(-10)\<close>.\<close>

definition slice_last :: "nat \<Rightarrow> 'a list \<Rightarrow> 'a list" where
  "slice_last n xs = drop (length xs - n) xs"

text \<open>The stop conditions of the selected mode; every one of them ends in the same
  three statements, so they are collected into one test.\<close>

definition modeFinish :: "ui \<Rightarrow> state \<Rightarrow> real \<Rightarrow> bool" where
  "modeFinish u s rolloutOffset =
     (case modeSelect u of
        None \<Rightarrow> False
      | Some mode \<Rightarrow>
          (mode = ''201'' \<and> cumulative s \<ge> 201 - rolloutOffset)
          \<or> (mode = ''402'' \<and> cumulative s \<ge> 402 - rolloutOffset)
          \<or> (mode = ''0-100'' \<and> peakSpeed s \<ge> 100)
          \<or> (mode = ''0-140'' \<and> peakSpeed s \<ge> 140)
          \<or> (mode = ''60-100'' \<and>
               (let lastSpeeds = map smp_speed (slice_last 10 (samples s))
                in list_ex (\<lambda>v. v \<ge> 60) lastSpeeds \<and> list_ex (\<lambda>v. v \<ge> 100) lastSpeeds)))"

text \<open>\<open>now - startTime\<close>, where a \<open>null\<close> start time counts as \<open>0\<close>.\<close>

definition elapsedOf :: "state \<Rightarrow> position \<Rightarrow> real" where
  "elapsedOf s p = (now p - (case startTime s of Some t0 \<Rightarrow> t0 | None \<Rightarrow> 0)) / 1000"

definition rolloutOffsetOf :: "ui \<Rightarrow> real" where
  "rolloutOffsetOf u = (if rolloutChecked u then ROLL_OUT_M else 0)"

text \<open>The part of the handler after the display update, on the state left by
  \<open>onPos_sense\<close>; \<open>smoothed\<close> is the speed of the current sample.\<close>

definition onPos_lifecycle :: "ui \<Rightarrow> position \<Rightarrow> real \<Rightarrow> state \<Rightarrow> state" where
  "onPos_lifecycle u p smoothed s =
     (if \<not> armed s then s\<lparr>lastPos := Some (coordsOf p)\<rparr>
      else if startPos s = None then
        (if accuracy p \<le> 50
         then s\<lparr>startPos := Some (coordsOf p), lastHeading := None,
                status := ArmedWaitingThrottle, lastPos := Some (coordsOf p)\<rparr>
         else s\<lparr>status := ArmingWaitingGPSAccuracy, lastPos := Some (coordsOf p)\<rparr>)
      else
        let d = fst (onPos_delta (lastPos s) (lastHeading s) (coordsOf p));
            s2 = s\<lparr>lastHeading := snd (onPos_delta (lastPos s) (lastHeading s) (coordsOf p))\<rparr>;
            ready = onPos_ready (samples s2) (nowMs p)
        in if \<not> running s2 then
             (if ready
              then s2\<lparr>running := True, startTime := Some (now p), cumulative := 0,
                      peakSpeed := smoothed,
                      samples := [\<lparr>smp_t = now p, smp_speed = smoothed\<rparr>],
                      marks := resetMarks, status := Running,
                      lastPos := Some (coordsOf p)\<rparr>
              else s2\<lparr>status := ArmedWaitingThrottle, lastPos := Some (coordsOf p)\<rparr>)
           else
             let rolloutOffset = rolloutOffsetOf u;
                 s3 = s2\<lparr>cumulative := cumulative s2 + d\<rparr>;
                 s4 = s3\<lparr>marks := captureMarks (marks s3) (cumulative s3) rolloutOffset
                                    (elapsedOf s3 p) smoothed\<rparr>
             in if marks s4 402 \<noteq> None
                then (finishRun u s4)\<lparr>lastPos := Some (coordsOf p)\<rparr>
                else if modeFinish u s4 rolloutOffset
                then (finishRun u s4)\<lparr>lastPos := Some (coordsOf p)\<rparr>
                else s4\<lparr>lastPos := Some (coordsOf p)\<rparr>)"

text \<open>Names for three intermediate values of a sample processed while running: the
  segment distance \<open>d\<close> and the bearing stored by the distance block (both computed
  after the reconstruction block has overwritten \<open>lastHeading\<close>), and the state after
  distance and milestones have been updated, before the stop conditions.\<close>

definition segment :: "state \<Rightarrow> position \<Rightarrow> real" where
  "segment s p = fst (onPos_delta (lastPos s) (snd (onPos_measure s p)) (coordsOf p))"

definition newHeading :: "state \<Rightarrow> position \<Rightarrow> real option" where
  "newHeading s p = snd (onPos_delta (lastPos s) (snd (onPos_measure s p)) (coordsOf p))"

definition runStep :: "ui \<Rightarrow> state \<Rightarrow> position \<Rightarrow> state" where
  "runStep u s p =
     (onPos_sense s p)\<lparr>lastHeading := newHeading s p,
        cumulative := cumulative s + segment s p,
        marks := captureMarks (marks s) (cumulative s + segment s p) (rolloutOffsetOf u)
                   (elapsedOf s p) (smoothedOf s p)\<rparr>"

definition onPos :: "ui \<Rightarrow> state \<Rightarrow> position \<Rightarrow> state" where
  "onPos u s p =
     (if finished s then s
      else onPos_lifecycle u p (smoothedOf s p) (onPos_sense s p))"

subsection \<open>Commands\<close>

definition resetUI :: "state \<Rightarrow> state" where
  "resetUI s = s\<lparr>samples := [], graphSamples := [], kalmanState := kalman_reset (kalmanState s) 0\<rparr>"

text \<open>\<open>arm\<close>: \<open>geolocation\<close> says whether \<open>navigator\<close> offers the geolocation service.\<close>

definition arm :: "bool \<Rightarrow> state \<Rightarrow> state" where
  "arm geolocation s =
     (if armed s then
        resetUI (s\<lparr>armed := False, running := False, finished := False,
                   startPos := None, lastPos := None, lastHeading := None,
                   cumulative := 0, startTime := None, peakSpeed := 0,
                   samples := [], graphSamples := [], marks := resetMarks,
                   watchId := False, status := Idle\<rparr>)
      else if \<not> geolocation then s
      else s\<lparr>running := False, armed := True, finished := False,
             startPos := None, lastPos := None, lastHeading := None,
             cumulative := 0, startTime := None, peakSpeed := 0,
             samples := [], graphSamples := [], marks := resetMarks,
             status := ArmingRequestingGPS, watchId := True\<rparr>)"

definition stop :: "state \<Rightarrow> state" where
  "stop s = s\<lparr>watchId := False, running := False, armed := False, finished := False,
              status := Stopped\<rparr>"

definition resetAll :: "state \<Rightarrow> state" where
  "resetAll s =
     (resetUI (s\<lparr>watchId := False, armed := False, running := False, finished := False,
                 startPos := None, lastPos := None, lastHeading := None,
                 cumulative := 0, startTime := None, peakSpeed := 0,
                 samples := [], graphSamples := [], marks := resetMarks\<rparr>))\<lparr>status := Idle\<rparr>"

text \<open>The error callback of the watch only writes the status line.\<close>

definition onGpsError :: "string \<Rightarrow> state \<Rightarrow> state" where
  "onGpsError msg s = s\<lparr>status := GPSError msg\<rparr>"

text \<open>The state after the script has loaded.\<close>

definition initial :: state where
  "initial =
     \<lparr>watchId = False, armed = False, running = False, finished = False,
      startPos = None, lastPos = None, lastHeading = None,
      cumulative = 0, startTime = None, peakSpeed = 0,
      samples = [], graphSamples = [], marks = resetMarks,
      kalmanState = \<lparr>k_x = 0, k_p = 1, k_q = KALMAN_Q, k_r = KALMAN_R\<rparr>,
      lastRun = None, status = Idle\<rparr>"

text \<open>The states the program can be in: from the initial state, any interleaving of
  position samples, commands and watch errors. (Saving, exporting and the power estimate
  touch none of the fields modelled here.)\<close>

inductive reachable :: "state \<Rightarrow> bool" where
  reach_initial: "reachable initial"
| reach_onPos: "reachable s \<Longrightarrow> reachable (onPos u s p)"
| reach_arm: "reachable s \<Longrightarrow> reachable (arm geolocation s)"
| reach_stop: "reachable s \<Longrightarrow> reachable (stop s)"
| reach_resetAll: "reachable s \<Longrightarrow> reachable (resetAll s)"
| reach_onGpsError: "reachable s \<Longrightarrow> reachable (onGpsError msg s)"

text \<open>The handler called on a list of samples in their order of arrival, each with what
  the page shows at that moment.\<close>

definition feed :: "state \<Rightarrow> (ui \<times> position) list \<Rightarrow> state" where
  "feed s ups = foldl (\<lambda>s' (u, p). onPos u s' p) s ups"

text \<open>The relation between the flags and the accumulators that every reachable state
  satisfies (lemma \<open>reachable_run_inv\<close>).\<close>

definition run_inv :: "state \<Rightarrow> bool" where
  "run_inv s \<longleftrightarrow>
     (running s \<longrightarrow> armed s \<and> startPos s \<noteq> None \<and> startTime s \<noteq> None \<and> \<not> finished s
                   \<and> marks s 402 = None)
     \<and> (finished s \<longrightarrow> \<not> armed s)
     \<and> (armed s \<and> \<not> running s \<longrightarrow> cumulative s = 0 \<and> (\<forall>m. marks s m = None))"

subsection \<open>Sample inputs\<close>

text \<open>Concrete pages, samples and states at which the theorems below are instantiated.\<close>

definition page_402 :: ui where
  "page_402 = \<lparr>modeSelect = Some ''402'', rolloutChk = Some False, dateNow = 1700000000000\<rparr>"

definition fix_rest :: position where
  "fix_rest = \<lparr>latitude = 1, longitude = 1, accuracy = 30, speed = Some 0,
                now = 1000, nowMs = 1000\<rparr>"

definition page_60_100 :: ui where
  "page_60_100 = \<lparr>modeSelect = Some ''60-100'', rolloutChk = Some False,
                   dateNow = 1700000000000\<rparr>"

definition fix_creep :: position where
  "fix_creep = \<lparr>latitude = 1, longitude = 1, accuracy = 30, speed = Some 0.5,
                 now = 2000, nowMs = 2001\<rparr>"

definition fix_launch :: position where
  "fix_launch = \<lparr>latitude = 1, longitude = 1, accuracy = 30, speed = Some 20,
                  now = 2000, nowMs = 2001\<rparr>"

text \<open>A session: the page is loaded, ARM is pressed, a first fix with good accuracy
  arrives at rest, and one second later a fix reporting 20 m/s.\<close>

definition s_armed :: state where "s_armed = arm True initial"
definition s_locked :: state where "s_locked = onPos page_402 s_armed fix_rest"
definition s_started :: state where "s_started = onPos page_402 s_locked fix_launch"

text \<open>Fixes that continue the session on the meridian: about 111 m to the north after
  one second; about 670 m to the north after 22 seconds; 11 m to the south and back.\<close>

definition fix_north :: position where
  "fix_north = \<lparr>latitude = 1.001, longitude = 1, accuracy = 5, speed = Some 20,
                 now = 3000, nowMs = 3001\<rparr>"

definition fix_far :: position where
  "fix_far = \<lparr>latitude = 1.006, longitude = 1, accuracy = 5, speed = Some 20,
               now = 24000, nowMs = 24001\<rparr>"

definition fix_south :: position where
  "fix_south = \<lparr>latitude = 0.9999, longitude = 1, accuracy = 5, speed = Some 20,
                 now = 3000, nowMs = 3001\<rparr>"

definition fix_back :: position where
  "fix_back = \<lparr>latitude = 1, longitude = 1, accuracy = 5, speed = Some 20,
                now = 4000, nowMs = 4001\<rparr>"

definition s_south :: state where "s_south = onPos page_402 s_started fix_south"

text \<open>A second session, next to the equator: armed, locked by a fix without a speed
  reading a metre north of the equator, then a fix exactly on it.\<close>

definition fix_near_equator :: position where
  "fix_near_equator = \<lparr>latitude = 0.00001, longitude = 1, accuracy = 5, speed = None,
                        now = 1000, nowMs = 1000\<rparr>"

definition fix_on_equator :: position where
  "fix_on_equator = \<lparr>latitude = 0, longitude = 1, accuracy = 5, speed = None,
                      now = 2000, nowMs = 2001\<rparr>"

definition e_locked :: state where "e_locked = onPos page_402 s_armed fix_near_equator"

text \<open>The first session brought to its end: from the started run, the fix 670 m to the
  north captures all four milestones and finishes the run. \<open>fix_late\<close> is a fix that
  arrives afterwards, reporting 30 m/s.\<close>

definition s_finished :: state where "s_finished = onPos page_402 s_started fix_far"

definition fix_late :: position where
  "fix_late = \<lparr>latitude = 1.007, longitude = 1, accuracy = 5, speed = Some 30,
                now = 30000, nowMs = 30001\<rparr>"

section \<open>Basic facts\<close>

lemmas CONFIG_defs =
  GHOST_THRESHOLD_KMH_def START_THRESHOLD_KMH_def START_WINDOW_MS_def
  SPEED_SMOOTH_ALPHA_def KALMAN_Q_def KALMAN_R_def HEADING_MAX_DEG_def
  REBUILD_SPEED_MAX_DT_def ROLL_OUT_M_def

lemma resetMarks_None: "resetMarks m = None"
  by (simp add: resetMarks_def MILESTONES_def)

subsection \<open>The handler, branch by branch\<close>

lemma sense_fields [simp]:
  "armed (onPos_sense s p) = armed s"
  "running (onPos_sense s p) = running s"
  "finished (onPos_sense s p) = finished s"
  "startPos (onPos_sense s p) = startPos s"
  "lastPos (onPos_sense s p) = lastPos s"
  "cumulative (onPos_sense s p) = cumulative s"
  "startTime (onPos_sense s p) = startTime s"
  "marks (onPos_sense s p) = marks s"
  "lastRun (onPos_sense s p) = lastRun s"
  "watchId (onPos_sense s p) = watchId s"
  "status (onPos_sense s p) = status s"
  by (simp_all add: onPos_sense_def Let_def)

lemma sense_samples:
  "samples (onPos_sense s p) =
     filter (\<lambda>x. now p - smp_t x \<le> 3000) (samples s @ [\<lparr>smp_t = now p, smp_speed = smoothedOf s p\<rparr>])"
  by (simp add: onPos_sense_def smoothedOf_def Let_def)

lemma sense_kalman:
  "kalmanState (onPos_sense s p) = onPos_kalman s (ghostFilter (fst (onPos_measure s p)))"
  by (simp add: onPos_sense_def Let_def)

lemma sense_lastHeading:
  "lastHeading (onPos_sense s p) = snd (onPos_measure s p)"
  by (simp add: onPos_sense_def Let_def)

lemma finishRun_fields [simp]:
  "cumulative (finishRun u s) = cumulative s"
  "marks (finishRun u s) = marks s"
  "startTime (finishRun u s) = startTime s"
  "peakSpeed (finishRun u s) = peakSpeed s"
  "startPos (finishRun u s) = startPos s"
  "kalmanState (finishRun u s) = kalmanState s"
  "finished (finishRun u s)"
  "\<not> running (finishRun u s) \<or> finished s"
  by (simp_all add: finishRun_def Let_def)

lemma finishRun_flags:
  "\<not> finished s \<Longrightarrow> \<not> running (finishRun u s) \<and> \<not> armed (finishRun u s)"
  by (simp add: finishRun_def Let_def)

lemma onPos_finished: "finished s \<Longrightarrow> onPos u s p = s"
  by (simp add: onPos_def)

lemma onPos_unarmed:
  "\<not> finished s \<Longrightarrow> \<not> armed s \<Longrightarrow> onPos u s p = (onPos_sense s p)\<lparr>lastPos := Some (coordsOf p)\<rparr>"
  by (simp add: onPos_def onPos_lifecycle_def)

lemma onPos_locking:
  "\<not> finished s \<Longrightarrow> armed s \<Longrightarrow> startPos s = None \<Longrightarrow>
   onPos u s p =
     (if accuracy p \<le> 50
      then (onPos_sense s p)\<lparr>startPos := Some (coordsOf p), lastHeading := None,
             status := ArmedWaitingThrottle, lastPos := Some (coordsOf p)\<rparr>
      else (onPos_sense s p)\<lparr>status := ArmingWaitingGPSAccuracy, lastPos := Some (coordsOf p)\<rparr>)"
  by (simp add: onPos_def onPos_lifecycle_def)

lemma onPos_waiting:
  "\<not> finished s \<Longrightarrow> armed s \<Longrightarrow> startPos s \<noteq> None \<Longrightarrow> \<not> running s \<Longrightarrow>
   onPos u s p =
     (if onPos_ready (samples (onPos_sense s p)) (nowMs p)
      then (onPos_sense s p)\<lparr>lastHeading := newHeading s p,
             running := True, startTime := Some (now p), cumulative := 0,
             peakSpeed := smoothedOf s p,
             samples := [\<lparr>smp_t = now p, smp_speed = smoothedOf s p\<rparr>],
             marks := resetMarks, status := Running, lastPos := Some (coordsOf p)\<rparr>
      else (onPos_sense s p)\<lparr>lastHeading := newHeading s p,
             status := ArmedWaitingThrottle, lastPos := Some (coordsOf p)\<rparr>)"
  by (auto simp add: onPos_def onPos_lifecycle_def Let_def newHeading_def sense_lastHeading)

lemma onPos_running:
  "\<not> finished s \<Longrightarrow> armed s \<Longrightarrow> startPos s \<noteq> None \<Longrightarrow> running s \<Longrightarrow>
   onPos u s p =
     (if marks (runStep u s p) 402 \<noteq> None \<or> modeFinish u (runStep u s p) (rolloutOffsetOf u)
      then (finishRun u (runStep u s p))\<lparr>lastPos := Some (coordsOf p)\<rparr>
      else (runStep u s p)\<lparr>lastPos := Some (coordsOf p)\<rparr>)"
  by (auto simp add: onPos_def onPos_lifecycle_def Let_def newHeading_def segment_def runStep_def
      sense_lastHeading elapsedOf_def)

section \<open>The Kalman filter\<close>

lemma kalman_update_q_r [simp]:
  "k_q (kalman_update k z) = k_q k" "k_r (kalman_update k z) = k_r k"
  by (simp_all add: kalman_update_def kalman_predict_def Let_def)

lemma kalman_update_p:
  assumes "0 < k_p k" "0 < k_q k" "0 < k_r k"
  shows "k_p (kalman_update k z) = k_r k * (k_p k + k_q k) / ((k_p k + k_q k) + k_r k)"
  using assms by (simp add: kalman_update_def kalman_predict_def Let_def field_simps)

lemma kalman_update_p_pos:
  assumes "0 < k_p k" "0 < k_q k" "0 < k_r k"
  shows "0 < k_p (kalman_update k z)"
  unfolding kalman_update_p [OF assms] using assms by simp

lemma kalman_update_p_less:
  assumes "0 < k_p k" "0 < k_q k" "0 < k_r k"
  shows "k_p (kalman_update k z) < k_r k"
  unfolding kalman_update_p [OF assms] using assms by (simp add: field_simps)

lemma kalman_updates_p_pos:
  "0 < k_p k \<Longrightarrow> 0 < k_q k \<Longrightarrow> 0 < k_r k \<Longrightarrow> 0 < k_p (foldl kalman_update k zs)"
  by (induction zs arbitrary: k) (simp_all add: kalman_update_p_pos)

text \<open>
  Claim C10. With positive covariance \<open>p\<close>, process noise \<open>q\<close> and measurement noise
  \<open>r\<close>, one \<open>update\<close> leaves the covariance \<open>r * (p + q) / ((p + q) + r)\<close>, which is
  strictly positive and strictly below \<open>r\<close>; the gain the update applies to the
  innovation is \<open>(p + q) / ((p + q) + r)\<close>, strictly between 0 and 1; and the covariance
  is still strictly positive after any sequence of updates. (Over the real numbers.)
\<close>

theorem kalman_covariance_positive:
  assumes "0 < k_p k" "0 < k_q k" "0 < k_r k"
  shows "k_p (kalman_update k z) = k_r k * (k_p k + k_q k) / ((k_p k + k_q k) + k_r k)
         \<and> 0 < k_p (kalman_update k z) \<and> k_p (kalman_update k z) < k_r k
         \<and> kalman_gain k = (k_p k + k_q k) / ((k_p k + k_q k) + k_r k)
         \<and> k_x (kalman_update k z) = k_x k + kalman_gain k * (z - k_x k)
         \<and> 0 < kalman_gain k \<and> kalman_gain k < 1
         \<and> 0 < k_p (foldl kalman_update k zs)"
proof -
  have g: "kalman_gain k = (k_p k + k_q k) / ((k_p k + k_q k) + k_r k)"
    by (simp add: kalman_gain_def kalman_predict_def)
  have x: "k_x (kalman_update k z) = k_x k + kalman_gain k * (z - k_x k)"
    by (simp add: kalman_update_def kalman_gain_def kalman_predict_def Let_def)
  have g0: "0 < kalman_gain k" unfolding g using assms by simp
  have g1: "kalman_gain k < 1" unfolding g using assms by simp
  show ?thesis
    using kalman_update_p [OF assms] kalman_update_p_pos [OF assms]
      kalman_update_p_less [OF assms] kalman_updates_p_pos [OF assms] g x g0 g1
    by blast
qed

theorem kalman_covariance_positive_witness:
  "k_p (kalman_update (kalmanState initial) 5) = 22 / 31
   \<and> kalman_gain (kalmanState initial) = 11 / 31
   \<and> 0 < k_p (foldl kalman_update (kalmanState initial) [5, 6, 7])"
  using kalman_covariance_positive [of "kalmanState initial" 5 "[5, 6, 7]"]
  by (simp add: initial_def KALMAN_Q_def KALMAN_R_def)

section \<open>The angular difference\<close>

lemma js_mod_360:
  assumes "of_int n * 360 \<le> v" "v < of_int n * 360 + 360" "0 \<le> v"
  shows "js_mod v 360 = v - 360 * of_int n"
proof -
  have "\<lfloor>v / 360\<rfloor> = n" using assms by (simp add: floor_eq_iff field_simps)
  moreover have "0 \<le> v / 360" using assms by simp
  ultimately show ?thesis by (simp add: js_mod_def js_trunc_def)
qed

lemma headingDiff_cases:
  assumes "- 360 < d" "d < 360"
  shows "js_mod (d + 540) 360 - 180
         = (if d < - 180 then d + 360 else if d < 180 then d else d - 360)"
proof -
  consider "d < - 180" | "- 180 \<le> d \<and> d < 180" | "180 \<le> d" by linarith
  then show ?thesis
  proof cases
    case 1 then show ?thesis using assms js_mod_360[of 0 "d + 540"] by simp
  next
    case 2 then show ?thesis using assms js_mod_360[of 1 "d + 540"] by simp
  next
    case 3 then show ?thesis using assms js_mod_360[of 2 "d + 540"] by simp
  qed
qed

lemma headingDiff_same: "headingDiff h h = 0"
  using headingDiff_cases [of 0] by (simp add: headingDiff_def)

text \<open>
  Claim C8. For bearings \<open>a\<close> and \<open>b\<close> in \<open>[0, 360)\<close> the expression
  \<open>abs(((b - a + 540) % 360) - 180)\<close> lies in \<open>[0, 180]\<close>, and exchanging \<open>a\<close> and \<open>b\<close>
  gives the same value.
\<close>

theorem headingDiff_range_symmetric:
  assumes "0 \<le> a" "a < 360" "0 \<le> b" "b < 360"
  shows "0 \<le> headingDiff b a \<and> headingDiff b a \<le> 180 \<and> headingDiff b a = headingDiff a b"
proof -
  have 1: "js_mod (b - a + 540) 360 - 180
           = (if b - a < - 180 then b - a + 360 else if b - a < 180 then b - a else b - a - 360)"
    using headingDiff_cases[of "b - a"] assms by simp
  have 2: "js_mod (a - b + 540) 360 - 180
           = (if a - b < - 180 then a - b + 360 else if a - b < 180 then a - b else a - b - 360)"
    using headingDiff_cases[of "a - b"] assms by simp
  show ?thesis unfolding headingDiff_def 1 2 using assms by (auto split: if_splits)
qed

theorem headingDiff_range_symmetric_witness:
  "headingDiff 350 10 = 20 \<and> headingDiff 10 350 = 20 \<and> headingDiff 350 10 \<le> 180"
  using headingDiff_range_symmetric [of 10 350]
  by (simp add: headingDiff_def js_mod_def js_trunc_def)

section \<open>The flags and the accumulators in reachable states\<close>

lemma runStep_fields [simp]:
  "armed (runStep u s p) = armed s"
  "running (runStep u s p) = running s"
  "finished (runStep u s p) = finished s"
  "startPos (runStep u s p) = startPos s"
  "startTime (runStep u s p) = startTime s"
  "cumulative (runStep u s p) = cumulative s + segment s p"
  "kalmanState (runStep u s p) = kalmanState (onPos_sense s p)"
  "samples (runStep u s p) = samples (onPos_sense s p)"
  "peakSpeed (runStep u s p) = peakSpeed (onPos_sense s p)"
  "marks (runStep u s p) = captureMarks (marks s) (cumulative s + segment s p) (rolloutOffsetOf u)
                   (elapsedOf s p) (smoothedOf s p)"
  by (simp_all add: runStep_def)

lemma finishRun_fields2 [simp]:
  "\<not> finished s \<Longrightarrow> \<not> running (finishRun u s)"
  "\<not> finished s \<Longrightarrow> \<not> armed (finishRun u s)"
  by (simp_all add: finishRun_def Let_def)

lemma onPos_cases:
  obtains (frozen) "finished s" "onPos u s p = s"
  | (unarmed) "\<not> finished s" "\<not> armed s"
      "onPos u s p = (onPos_sense s p)\<lparr>lastPos := Some (coordsOf p)\<rparr>"
  | (locked) "\<not> finished s" "armed s" "startPos s = None" "accuracy p \<le> 50"
      "onPos u s p = (onPos_sense s p)\<lparr>startPos := Some (coordsOf p), lastHeading := None,
             status := ArmedWaitingThrottle, lastPos := Some (coordsOf p)\<rparr>"
  | (nolock) "\<not> finished s" "armed s" "startPos s = None" "\<not> accuracy p \<le> 50"
      "onPos u s p = (onPos_sense s p)\<lparr>status := ArmingWaitingGPSAccuracy, lastPos := Some (coordsOf p)\<rparr>"
  | (start) "\<not> finished s" "armed s" "startPos s \<noteq> None" "\<not> running s"
      "onPos_ready (samples (onPos_sense s p)) (nowMs p)"
      "onPos u s p = (onPos_sense s p)\<lparr>lastHeading := newHeading s p,
             running := True, startTime := Some (now p), cumulative := 0,
             peakSpeed := smoothedOf s p,
             samples := [\<lparr>smp_t = now p, smp_speed = smoothedOf s p\<rparr>],
             marks := resetMarks, status := Running, lastPos := Some (coordsOf p)\<rparr>"
  | (wait) "\<not> finished s" "armed s" "startPos s \<noteq> None" "\<not> running s"
      "\<not> onPos_ready (samples (onPos_sense s p)) (nowMs p)"
      "onPos u s p = (onPos_sense s p)\<lparr>lastHeading := newHeading s p,
             status := ArmedWaitingThrottle, lastPos := Some (coordsOf p)\<rparr>"
  | (finish) "\<not> finished s" "armed s" "startPos s \<noteq> None" "running s"
      "marks (runStep u s p) 402 \<noteq> None \<or> modeFinish u (runStep u s p) (rolloutOffsetOf u)"
      "onPos u s p = (finishRun u (runStep u s p))\<lparr>lastPos := Some (coordsOf p)\<rparr>"
  | (go_on) "\<not> finished s" "armed s" "startPos s \<noteq> None" "running s"
      "marks (runStep u s p) 402 = None" "\<not> modeFinish u (runStep u s p) (rolloutOffsetOf u)"
      "onPos u s p = (runStep u s p)\<lparr>lastPos := Some (coordsOf p)\<rparr>"
proof (cases "finished s")
  case True
  then show ?thesis using frozen onPos_finished by blast
next
  case nf: False
  show ?thesis
  proof (cases "armed s")
    case False
    then show ?thesis using nf unarmed onPos_unarmed by blast
  next
    case a: True
    show ?thesis
    proof (cases "startPos s = None")
      case sp: True
      note eq = onPos_locking [OF nf a sp, of u p]
      show ?thesis
      proof (cases "accuracy p \<le> 50")
        case True
        from eq True have "onPos u s p = (onPos_sense s p)\<lparr>startPos := Some (coordsOf p), lastHeading := None,
             status := ArmedWaitingThrottle, lastPos := Some (coordsOf p)\<rparr>" by (simp only: if_True)
        then show ?thesis using locked nf a sp True by blast
      next
        case False
        from eq False have "onPos u s p = (onPos_sense s p)\<lparr>status := ArmingWaitingGPSAccuracy, lastPos := Some (coordsOf p)\<rparr>" by (simp only: if_False)
        then show ?thesis using nolock nf a sp False by blast
      qed
    next
      case sp: False
      show ?thesis
      proof (cases "running s")
        case r: False
        note eq = onPos_waiting [OF nf a sp r, of u p]
        show ?thesis
        proof (cases "onPos_ready (samples (onPos_sense s p)) (nowMs p)")
          case True
          from eq True have "onPos u s p = (onPos_sense s p)\<lparr>lastHeading := newHeading s p,
             running := True, startTime := Some (now p), cumulative := 0,
             peakSpeed := smoothedOf s p,
             samples := [\<lparr>smp_t = now p, smp_speed = smoothedOf s p\<rparr>],
             marks := resetMarks, status := Running, lastPos := Some (coordsOf p)\<rparr>"
            by (simp only: if_True)
          then show ?thesis using start nf a sp r True by blast
        next
          case False
          from eq False have "onPos u s p = (onPos_sense s p)\<lparr>lastHeading := newHeading s p,
             status := ArmedWaitingThrottle, lastPos := Some (coordsOf p)\<rparr>"
            by (simp only: if_False)
          then show ?thesis using wait nf a sp r False by blast
        qed
      next
        case r: True
        note eq = onPos_running [OF nf a sp r, of u p]
        show ?thesis
        proof (cases "marks (runStep u s p) 402 \<noteq> None \<or> modeFinish u (runStep u s p) (rolloutOffsetOf u)")
          case True
          from eq True have "onPos u s p = (finishRun u (runStep u s p))\<lparr>lastPos := Some (coordsOf p)\<rparr>"
            by (simp only: if_True)
          then show ?thesis using finish nf a sp r True by blast
        next
          case False
          from eq False have "onPos u s p = (runStep u s p)\<lparr>lastPos := Some (coordsOf p)\<rparr>"
            by (simp only: if_False)
          moreover from False have "marks (runStep u s p) 402 = None"
            "\<not> modeFinish u (runStep u s p) (rolloutOffsetOf u)" by blast+
          ultimately show ?thesis using go_on nf a sp r by blast
        qed
      qed
    qed
  qed
qed

lemma onPos_run_inv:
  assumes inv: "run_inv s"
  shows "run_inv (onPos u s p)"
proof (cases rule: onPos_cases [of s u p])
  case frozen then show ?thesis using inv by simp
next
  case unarmed then show ?thesis using inv by (simp add: run_inv_def)
next
  case locked then show ?thesis using inv by (auto simp add: run_inv_def)
next
  case nolock then show ?thesis using inv by (auto simp add: run_inv_def)
next
  case start then show ?thesis using inv by (auto simp add: run_inv_def resetMarks_None)
next
  case wait then show ?thesis using inv by (auto simp add: run_inv_def)
next
  case finish then show ?thesis using inv by (auto simp add: run_inv_def)
next
  case go_on then show ?thesis using inv by (auto simp add: run_inv_def)
qed

lemma reachable_run_inv: "reachable s \<Longrightarrow> run_inv s"
proof (induction rule: reachable.induct)
  case reach_initial
  show ?case by (simp add: run_inv_def initial_def)
next
  case (reach_onPos s u p)
  then show ?case by (simp add: onPos_run_inv)
next
  case (reach_arm s geolocation)
  then show ?case by (auto simp add: run_inv_def arm_def resetUI_def resetMarks_None)
next
  case (reach_stop s)
  then show ?case by (simp add: run_inv_def stop_def)
next
  case (reach_resetAll s)
  then show ?case by (simp add: run_inv_def resetAll_def resetUI_def)
next
  case (reach_onGpsError s msg)
  then show ?case by (simp add: run_inv_def onGpsError_def)
qed

section \<open>Geometry on a meridian, and the two heading checks\<close>

lemma hav_meridian:
  assumes "0 \<le> lb - la" "lb - la < 180"
  shows "hav \<lparr>latitude = la, longitude = lo\<rparr> \<lparr>latitude = lb, longitude = lo\<rparr>
         = 6371000 * (lb - la) * pi / 180"
proof -
  define t where "t = (lb - la) * (pi / 180) / 2"
  have t0: "0 \<le> t" using assms by (simp add: t_def)
  have "(lb - la) * pi < 180 * pi" using assms by (intro mult_strict_right_mono) simp_all
  then have t1: "t < pi / 2" by (simp add: t_def)
  have c: "0 < cos t" using t0 t1 by (intro cos_gt_zero_pi) linarith+
  have s: "0 \<le> sin t" using t0 t1 by (intro sin_ge_zero) linarith+
  have h1: "sqrt (sin t * sin t) = sin t" using s by simp
  have "1 - sin t * sin t = cos t * cos t"
    using sin_cos_squared_add [of t] by (simp add: power2_eq_square algebra_simps)
  then have h2: "sqrt (1 - sin t * sin t) = cos t" using c by simp
  have "atan2 (sin t) (cos t) = arctan (tan t)" using c by (simp add: atan2_def tan_def)
  also have "\<dots> = t" using t0 t1 by (intro arctan_tan) linarith+
  finally have a: "atan2 (sin t) (cos t) = t" .
  have "hav \<lparr>latitude = la, longitude = lo\<rparr> \<lparr>latitude = lb, longitude = lo\<rparr>
        = 6371000 * 2 * atan2 (sqrt (sin t * sin t)) (sqrt (1 - sin t * sin t))"
    by (simp add: hav_def Let_def t_def)
  also have "\<dots> = 6371000 * 2 * t" by (simp only: h1 h2 a)
  also have "\<dots> = 6371000 * (lb - la) * pi / 180" by (simp add: t_def)
  finally show ?thesis .
qed

lemma headingDeg_north:
  assumes "0 < lb - la" "lb - la < 180"
  shows "headingDeg \<lparr>latitude = la, longitude = lo\<rparr> \<lparr>latitude = lb, longitude = lo\<rparr> = 0"
proof -
  define a where "a = la * (pi / 180)"
  define b where "b = lb * (pi / 180)"
  have d: "b - a = (lb - la) * (pi / 180)" by (simp add: a_def b_def algebra_simps)
  have "0 < b - a" unfolding d using assms by simp
  moreover have "(lb - la) * pi < 180 * pi" using assms by (intro mult_strict_right_mono) simp_all
  then have "b - a < pi" unfolding d by simp
  ultimately have "0 < sin (b - a)" by (rule sin_gt_zero)
  then have x: "0 < cos a * sin b - sin a * cos b" by (simp add: sin_diff algebra_simps)
  have "headingDeg \<lparr>latitude = la, longitude = lo\<rparr> \<lparr>latitude = lb, longitude = lo\<rparr>
        = js_mod (atan2 0 (cos a * sin b - sin a * cos b) * 180 / pi + 360) 360"
    by (simp add: headingDeg_def Let_def a_def b_def)
  also have "\<dots> = js_mod 360 360" using x by (simp add: atan2_def)
  also have "\<dots> = 0" by (simp add: js_mod_def js_trunc_def)
  finally show ?thesis .
qed

lemma onPos_delta_same_heading:
  "onPos_delta (Some a) (Some (headingDeg a cur)) cur = (hav a cur, Some (headingDeg a cur))"
  by (simp add: onPos_delta_def Let_def headingDiff_same HEADING_MAX_DEG_def)

lemma measure_heading:
  assumes "lastPos s = Some a" "truthy (latitude p)" "truthy (longitude p)"
  shows "snd (onPos_measure s p) = map_option (\<lambda>_. headingDeg a (coordsOf p)) (lastHeading s)"
  using assms by (simp add: onPos_measure_def Let_def onPos_headingNow_def split: option.splits)

text \<open>Whenever the reconstruction block runs, the distance block sees the bearing the
  reconstruction block has just stored, and accepts the segment.\<close>

lemma segment_unfiltered:
  assumes "lastPos s = Some a" "latitude p \<noteq> 0" "longitude p \<noteq> 0"
  shows "segment s p = hav a (coordsOf p)"
proof (cases "lastHeading s")
  case None
  then show ?thesis using assms
    by (simp add: segment_def measure_heading truthy_def onPos_delta_def Let_def)
next
  case (Some h)
  then show ?thesis using assms
    by (simp add: segment_def measure_heading truthy_def onPos_delta_same_heading)
qed

lemma newHeading_unfiltered:
  assumes "lastPos s = Some a" "latitude p \<noteq> 0" "longitude p \<noteq> 0"
  shows "newHeading s p = Some (headingDeg a (coordsOf p))"
proof (cases "lastHeading s")
  case None
  then show ?thesis using assms
    by (simp add: newHeading_def measure_heading truthy_def onPos_delta_def Let_def)
next
  case (Some h)
  then show ?thesis using assms
    by (simp add: newHeading_def measure_heading truthy_def onPos_delta_same_heading)
qed

lemma sin_half_flip:
  fixes x y c :: real
  shows "sin ((x - y) * c / 2) = - sin ((y - x) * c / 2)"
proof -
  have "(x - y) * c / 2 = - ((y - x) * c / 2)" by (simp add: field_simps)
  then show ?thesis by (simp only: sin_minus)
qed

lemma hav_sym: "hav a b = hav b a"
proof -
  have f1: "sin ((latitude a - latitude b) * (pi / 180) / 2)
            = - sin ((latitude b - latitude a) * (pi / 180) / 2)"
    by (rule sin_half_flip)
  have f2: "sin ((longitude a - longitude b) * (pi / 180) / 2)
            = - sin ((longitude b - longitude a) * (pi / 180) / 2)"
    by (rule sin_half_flip)
  show ?thesis unfolding hav_def Let_def f1 f2 by (simp add: mult.commute)
qed

lemma headingDeg_south:
  assumes "0 < la - lb" "la - lb < 180"
  shows "headingDeg \<lparr>latitude = la, longitude = lo\<rparr> \<lparr>latitude = lb, longitude = lo\<rparr> = 180"
proof -
  define a where "a = la * (pi / 180)"
  define b where "b = lb * (pi / 180)"
  have d: "a - b = (la - lb) * (pi / 180)" by (simp add: a_def b_def algebra_simps)
  have "0 < a - b" unfolding d using assms by simp
  moreover have "(la - lb) * pi < 180 * pi" using assms by (intro mult_strict_right_mono) simp_all
  then have "a - b < pi" unfolding d by simp
  ultimately have "0 < sin (a - b)" by (rule sin_gt_zero)
  then have x: "cos a * sin b - sin a * cos b < 0" by (simp add: sin_diff algebra_simps)
  have "headingDeg \<lparr>latitude = la, longitude = lo\<rparr> \<lparr>latitude = lb, longitude = lo\<rparr>
        = js_mod (atan2 0 (cos a * sin b - sin a * cos b) * 180 / pi + 360) 360"
    by (simp add: headingDeg_def Let_def a_def b_def)
  also have "\<dots> = js_mod 540 360" using x by (simp add: atan2_def)
  also have "\<dots> = 180" by (simp add: js_mod_def js_trunc_def)
  finally show ?thesis .
qed

section \<open>The sample session\<close>

lemma s_armed_eq:
  "s_armed = \<lparr>watchId = True, armed = True, running = False, finished = False,
      startPos = None, lastPos = None, lastHeading = None,
      cumulative = 0, startTime = None, peakSpeed = 0,
      samples = [], graphSamples = [], marks = resetMarks,
      kalmanState = \<lparr>k_x = 0, k_p = 1, k_q = 1 / 10, k_r = 2\<rparr>,
      lastRun = None, status = ArmingRequestingGPS\<rparr>"
  by (simp add: s_armed_def arm_def initial_def KALMAN_Q_def KALMAN_R_def)

lemma s_locked_eq:
  "s_locked = \<lparr>watchId = True, armed = True, running = False, finished = False,
      startPos = Some \<lparr>latitude = 1, longitude = 1\<rparr>,
      lastPos = Some \<lparr>latitude = 1, longitude = 1\<rparr>, lastHeading = None,
      cumulative = 0, startTime = None, peakSpeed = 0,
      samples = [\<lparr>smp_t = 1000, smp_speed = 0\<rparr>],
      graphSamples = [\<lparr>smp_t = 1000, smp_speed = 0\<rparr>], marks = resetMarks,
      kalmanState = \<lparr>k_x = 0, k_p = 22 / 31, k_q = 1 / 10, k_r = 2\<rparr>,
      lastRun = None, status = ArmedWaitingThrottle\<rparr>"
  unfolding s_locked_def s_armed_eq
  by (simp add: onPos_def onPos_lifecycle_def onPos_sense_def smoothedOf_def onPos_measure_def
      ghostFilter_def onPos_kalman_def onPos_smoothed_def kalman_update_def kalman_predict_def
      lowPass_def Let_def fix_rest_def coordsOf_def CONFIG_defs onPos_dtMs_def)

lemma headingDeg_same: "headingDeg a a = 0"
  by (simp add: headingDeg_def Let_def atan2_def js_mod_def js_trunc_def algebra_simps)

lemma s_started_eq:
  "s_started = \<lparr>watchId = True, armed = True, running = True, finished = False,
      startPos = Some \<lparr>latitude = 1, longitude = 1\<rparr>,
      lastPos = Some \<lparr>latitude = 1, longitude = 1\<rparr>, lastHeading = Some 0,
      cumulative = 0, startTime = Some 2000, peakSpeed = 4518 / 871,
      samples = [\<lparr>smp_t = 2000, smp_speed = 4518 / 871\<rparr>],
      graphSamples = [\<lparr>smp_t = 1000, smp_speed = 0\<rparr>, \<lparr>smp_t = 2000, smp_speed = 4518 / 871\<rparr>],
      marks = resetMarks,
      kalmanState = \<lparr>k_x = 5020 / 871, k_p = 502 / 871, k_q = 1 / 10, k_r = 2\<rparr>,
      lastRun = None, status = Running\<rparr>"
  unfolding s_started_def s_locked_eq
  by (simp add: onPos_def onPos_lifecycle_def onPos_sense_def smoothedOf_def onPos_measure_def
      ghostFilter_def onPos_kalman_def onPos_smoothed_def kalman_update_def kalman_predict_def
      lowPass_def Let_def fix_launch_def coordsOf_def CONFIG_defs onPos_dtMs_def
      onPos_headingNow_def onPos_headingOk_def truthy_def onPos_delta_def headingDeg_same
      onPos_ready_def)

lemma reachable_s_started: "reachable s_armed" "reachable s_locked" "reachable s_started"
  unfolding s_armed_def s_locked_def s_started_def
  by (intro reachable.intros)+

section \<open>Distance accumulates only while running\<close>

lemma onPos_cumulative_not_running:
  assumes "run_inv s" "\<not> running s"
  shows "cumulative (onPos u s p) = cumulative s"
proof (cases rule: onPos_cases [of s u p])
  case start then show ?thesis using assms by (simp add: run_inv_def)
qed (use assms in simp_all)

text \<open>
  Claim C4. In every reachable state that is not running (not armed, armed and waiting
  for the GPS lock, armed and waiting for the throttle, or finished), a sample leaves
  \<open>cumulative\<close> as it was.
\<close>

theorem distance_only_while_running:
  "reachable s \<Longrightarrow> \<not> running s \<Longrightarrow> cumulative (onPos u s p) = cumulative s"
  by (simp add: onPos_cumulative_not_running reachable_run_inv)

theorem distance_only_while_running_witness:
  "reachable s_locked \<and> \<not> running s_locked \<and> armed s_locked
   \<and> cumulative (onPos page_402 s_locked fix_launch) = cumulative s_locked"
  using distance_only_while_running [of s_locked page_402 fix_launch] reachable_s_started(2)
  by (simp add: s_locked_eq)

section \<open>The ghost filter\<close>

lemma onPos_kalmanState:
  "\<not> finished s \<Longrightarrow> kalmanState (onPos u s p) = kalmanState (onPos_sense s p)"
  by (cases rule: onPos_cases [of s u p]) simp_all

text \<open>
  Claim C5. When a sample that is processed has a measured speed \<open>v\<close> (in km/h, after
  the optional reconstruction), the Kalman filter is updated with \<open>0\<close> if \<open>v < 2.5\<close>
  and with \<open>v / 3.6\<close>, the unmodified speed in m/s, otherwise.
\<close>

theorem ghost_filter_before_kalman:
  assumes "\<not> finished s" "fst (onPos_measure s p) = Some v"
  shows "kalmanState (onPos u s p)
         = kalman_update (kalmanState s) ((if v < 2.5 then 0 else v) / 3.6)"
  using assms
  by (simp add: onPos_kalmanState sense_kalman ghostFilter_def onPos_kalman_def
      GHOST_THRESHOLD_KMH_def)

lemma measure_fix_creep: "onPos_measure s_locked fix_creep = (Some 1.8, None)"
  unfolding s_locked_eq
  by (simp add: onPos_measure_def fix_creep_def onPos_dtMs_def truthy_def
      Let_def onPos_headingNow_def)

theorem ghost_filter_before_kalman_witness:
  "\<not> finished s_locked \<and> fst (onPos_measure s_locked fix_creep) = Some 1.8
   \<and> kalmanState (onPos page_402 s_locked fix_creep) = kalman_update (kalmanState s_locked) 0"
  using ghost_filter_before_kalman [of s_locked fix_creep "1.8" page_402]
  by (simp add: measure_fix_creep) (simp add: s_locked_eq)

section \<open>Start detection\<close>

lemma onPos_ready_iff:
  "onPos_ready smps tnow \<longleftrightarrow>
     (\<exists>x\<in>set smps. tnow - smp_t x \<le> 450)
     \<and> (\<forall>x\<in>set smps. tnow - smp_t x \<le> 450 \<longrightarrow> 3 \<le> smp_speed x)"
  by (auto simp add: onPos_ready_def Let_def list_all_iff filter_empty_conv
      START_WINDOW_MS_def START_THRESHOLD_KMH_def)

lemma onPos_start_step:
  assumes "armed s" "startPos s \<noteq> None" "\<not> running s" "\<not> finished s"
  shows "(running (onPos u s p) \<longleftrightarrow> onPos_ready (samples (onPos_sense s p)) (nowMs p))
    \<and> (running (onPos u s p) \<longrightarrow>
          startTime (onPos u s p) = Some (now p) \<and> cumulative (onPos u s p) = 0
          \<and> peakSpeed (onPos u s p) = smoothedOf s p
          \<and> samples (onPos u s p) = [\<lparr>smp_t = now p, smp_speed = smoothedOf s p\<rparr>]
          \<and> (\<forall>m. marks (onPos u s p) m = None))
    \<and> armed (onPos u s p) \<and> startPos (onPos u s p) = startPos s \<and> \<not> finished (onPos u s p)"
proof (cases rule: onPos_cases [of s u p])
  case start then show ?thesis using assms by (simp add: resetMarks_None)
next
  case wait then show ?thesis using assms by simp
qed (use assms in simp_all)

text \<open>
  Claim C3, as amended. Once the start position has been fixed, in the state "armed,
  waiting throttle" (armed, not running), a sample starts the run exactly when the
  rolling buffer, with this sample pushed and entries older than three seconds dropped,
  has an entry within 450 ms of \<open>nowMs\<close> and no such entry below 3 km/h. On the start,
  \<open>startTime\<close> is the time of the sample, \<open>cumulative\<close> is 0, \<open>peakSpeed\<close> is the
  smoothed speed, the buffer holds the current sample alone and every milestone is
  empty. Otherwise the machine stays in the same state, so the next sample is judged in
  the same way.
\<close>

theorem start_detection:
  assumes "armed s" "startPos s \<noteq> None" "\<not> running s" "\<not> finished s"
    and buf: "buf = filter (\<lambda>x. now p - smp_t x \<le> 3000)
                       (samples s @ [\<lparr>smp_t = now p, smp_speed = smoothedOf s p\<rparr>])"
  shows "(running (onPos u s p) \<longleftrightarrow>
            (\<exists>x\<in>set buf. nowMs p - smp_t x \<le> 450)
            \<and> (\<forall>x\<in>set buf. nowMs p - smp_t x \<le> 450 \<longrightarrow> 3 \<le> smp_speed x))
    \<and> (running (onPos u s p) \<longrightarrow>
          startTime (onPos u s p) = Some (now p) \<and> cumulative (onPos u s p) = 0
          \<and> peakSpeed (onPos u s p) = smoothedOf s p
          \<and> samples (onPos u s p) = [\<lparr>smp_t = now p, smp_speed = smoothedOf s p\<rparr>]
          \<and> (\<forall>m. marks (onPos u s p) m = None))
    \<and> armed (onPos u s p) \<and> startPos (onPos u s p) = startPos s \<and> \<not> finished (onPos u s p)"
  using onPos_start_step [OF assms(1-4), of u p]
  unfolding onPos_ready_iff sense_samples buf by blast

theorem start_detection_witness:
  "running (onPos page_402 s_locked fix_launch)
   \<and> startTime (onPos page_402 s_locked fix_launch) = Some 2000
   \<and> cumulative (onPos page_402 s_locked fix_launch) = 0
   \<and> peakSpeed (onPos page_402 s_locked fix_launch) = smoothedOf s_locked fix_launch
   \<and> samples (onPos page_402 s_locked fix_launch)
       = [\<lparr>smp_t = 2000, smp_speed = smoothedOf s_locked fix_launch\<rparr>]
   \<and> \<not> running (onPos page_402 s_locked fix_creep)
   \<and> armed (onPos page_402 s_locked fix_creep)"
proof -
  have 1: "smoothedOf s_locked fix_launch = 4518 / 871"
    unfolding s_locked_eq
    by (simp add: smoothedOf_def onPos_measure_def ghostFilter_def onPos_kalman_def
        onPos_smoothed_def kalman_update_def kalman_predict_def lowPass_def Let_def
        fix_launch_def CONFIG_defs onPos_dtMs_def onPos_headingNow_def truthy_def)
  have 2: "smoothedOf s_locked fix_creep = 0"
    unfolding s_locked_eq
    by (simp add: smoothedOf_def onPos_measure_def ghostFilter_def onPos_kalman_def
        onPos_smoothed_def kalman_update_def kalman_predict_def lowPass_def Let_def
        fix_creep_def CONFIG_defs onPos_dtMs_def onPos_headingNow_def truthy_def)
  have a: "armed s_locked" "startPos s_locked \<noteq> None" "\<not> running s_locked"
    "\<not> finished s_locked" "samples s_locked = [\<lparr>smp_t = 1000, smp_speed = 0\<rparr>]"
    by (simp_all add: s_locked_eq)
  have b: "now fix_launch = 2000" "nowMs fix_launch = 2001"
    "now fix_creep = 2000" "nowMs fix_creep = 2001"
    by (simp_all add: fix_launch_def fix_creep_def)
  show ?thesis
    using start_detection [OF a(1-4) refl, where p = fix_launch and u = page_402]
      start_detection [OF a(1-4) refl, where p = fix_creep and u = page_402]
    by (simp add: 1 2 a(5) b)
qed

text \<open>Before the start position is fixed the handler returns after the accuracy check:
  armed and already moving, the first fix with good accuracy satisfies the window
  condition and only fixes the start position.\<close>

theorem start_detection_counterexample:
  "reachable s_armed \<and> armed s_armed \<and> \<not> running s_armed
   \<and> samples (onPos_sense s_armed fix_launch) = [\<lparr>smp_t = 2000, smp_speed = 792 / 31\<rparr>]
   \<and> nowMs fix_launch - 2000 \<le> (450 :: real) \<and> (3 :: real) \<le> 792 / 31
   \<and> \<not> running (onPos page_402 s_armed fix_launch)"
proof -
  have b: "samples (onPos_sense s_armed fix_launch) = [\<lparr>smp_t = 2000, smp_speed = 792 / 31\<rparr>]"
    unfolding sense_samples
    unfolding s_armed_eq
    by (simp add: smoothedOf_def onPos_measure_def ghostFilter_def onPos_kalman_def
        onPos_smoothed_def kalman_update_def kalman_predict_def lowPass_def Let_def
        fix_launch_def CONFIG_defs onPos_dtMs_def)
  have n: "\<not> running (onPos page_402 s_armed fix_launch)"
    using onPos_locking [of s_armed page_402 fix_launch]
    by (simp add: s_armed_eq fix_launch_def)
  have a: "armed s_armed" "\<not> running s_armed" by (simp_all add: s_armed_eq)
  have t: "nowMs fix_launch - 2000 \<le> (450 :: real)" by (simp add: fix_launch_def)
  show ?thesis
    using reachable_s_started(1) a b n t by simp
qed

section \<open>A sample processed while running\<close>

lemma captureMarks_apply:
  "captureMarks mks cum off e sm m =
     (if m \<in> set MILESTONES \<and> mks m = None \<and> real m - off \<le> cum
      then Some \<lparr>mk_time = e, mk_speed = sm\<rparr> else mks m)"
  by (auto simp add: captureMarks_def MILESTONES_def)

lemma onPos_running_fields:
  assumes "\<not> finished s" "armed s" "startPos s \<noteq> None" "running s"
  shows "cumulative (onPos u s p) = cumulative s + segment s p"
    and "marks (onPos u s p) = captureMarks (marks s) (cumulative s + segment s p)
           (rolloutOffsetOf u) (elapsedOf s p) (smoothedOf s p)"
    and "finished (onPos u s p) \<longleftrightarrow>
           marks (onPos u s p) 402 \<noteq> None
           \<or> modeFinish u (runStep u s p) (rolloutOffsetOf u)"
    and "lastPos (onPos u s p) = Some (coordsOf p)"
    and "\<not> finished (onPos u s p) \<Longrightarrow>
           running (onPos u s p) \<and> armed (onPos u s p) \<and> startPos (onPos u s p) = startPos s
           \<and> lastHeading (onPos u s p) = newHeading s p
           \<and> startTime (onPos u s p) = startTime s"
proof -
  show "cumulative (onPos u s p) = cumulative s + segment s p"
    by (cases rule: onPos_cases [of s u p]) (use assms in simp_all)
  show m: "marks (onPos u s p) = captureMarks (marks s) (cumulative s + segment s p)
           (rolloutOffsetOf u) (elapsedOf s p) (smoothedOf s p)"
    by (cases rule: onPos_cases [of s u p]) (use assms in simp_all)
  show "finished (onPos u s p) \<longleftrightarrow>
           marks (onPos u s p) 402 \<noteq> None
           \<or> modeFinish u (runStep u s p) (rolloutOffsetOf u)"
    unfolding m
    by (cases rule: onPos_cases [of s u p]) (use assms in simp_all)
  show "lastPos (onPos u s p) = Some (coordsOf p)"
    by (cases rule: onPos_cases [of s u p]) (use assms in simp_all)
  show "\<not> finished (onPos u s p) \<Longrightarrow>
           running (onPos u s p) \<and> armed (onPos u s p) \<and> startPos (onPos u s p) = startPos s
           \<and> lastHeading (onPos u s p) = newHeading s p
           \<and> startTime (onPos u s p) = startTime s"
    by (cases rule: onPos_cases [of s u p]) (use assms in \<open>simp_all add: runStep_def\<close>)
qed

lemma onPos_marks_kept:
  assumes "run_inv s" "marks s m = Some v"
  shows "marks (onPos u s p) m = Some v"
proof (cases rule: onPos_cases [of s u p])
  case start then show ?thesis using assms by (simp add: run_inv_def)
next
  case finish then show ?thesis using assms by (simp add: captureMarks_apply)
next
  case go_on then show ?thesis using assms by (simp add: captureMarks_apply)
qed (use assms in simp_all)

lemma onPos_marks_not_running:
  assumes "run_inv s" "\<not> running s" "marks s m = None"
  shows "marks (onPos u s p) m = None"
proof (cases rule: onPos_cases [of s u p])
  case start then show ?thesis using assms by (simp add: resetMarks_None)
qed (use assms in simp_all)

lemma reachable_feed: "reachable s \<Longrightarrow> reachable (feed s ups)"
  unfolding feed_def
  by (induction ups arbitrary: s) (auto intro: reach_onPos)

lemma feed_marks_kept:
  "reachable s \<Longrightarrow> marks s m = Some v \<Longrightarrow> marks (feed s ups) m = Some v"
proof (induction ups arbitrary: s)
  case Nil
  then show ?case by (simp add: feed_def)
next
  case (Cons up ups)
  obtain u p where up: "up = (u, p)" by (cases up)
  have "reachable (onPos u s p)" using Cons.prems(1) by (rule reach_onPos)
  moreover have "marks (onPos u s p) m = Some v"
    using Cons.prems by (simp add: onPos_marks_kept reachable_run_inv)
  ultimately have "marks (feed (onPos u s p) ups) m = Some v" by (rule Cons.IH)
  then show ?case by (simp add: feed_def up)
qed

section \<open>Milestones\<close>

text \<open>
  Claim C2. For each milestone \<open>M\<close> of 20, 100, 201 and 402 m, in a reachable state:
  a sample processed while running, with \<open>M\<close> not yet captured, captures it exactly when
  the distance accumulated up to and including this sample has reached \<open>M\<close> minus the
  rollout offset (0.3048 m if the box is checked, else 0), and records the elapsed
  seconds and the smoothed speed of this sample; a sample processed while not running
  captures nothing; a captured milestone is the same after one more sample and after
  any number of samples.
\<close>

theorem milestone_capture_once:
  assumes "reachable s" "m \<in> set MILESTONES"
  shows "(running s \<and> marks s m = None \<longrightarrow>
            (\<exists>t0. startTime s = Some t0
               \<and> marks (onPos u s p) m =
                  (if real m - (if rolloutChecked u then 0.3048 else 0) \<le> cumulative (onPos u s p)
                   then Some \<lparr>mk_time = (now p - t0) / 1000, mk_speed = smoothedOf s p\<rparr>
                   else None)))
       \<and> (\<not> running s \<and> marks s m = None \<longrightarrow> marks (onPos u s p) m = None)
       \<and> (marks s m = Some v \<longrightarrow> marks (onPos u s p) m = Some v \<and> marks (feed s ups) m = Some v)"
proof -
  note inv = reachable_run_inv [OF assms(1)]
  have 1: "\<exists>t0. startTime s = Some t0
               \<and> marks (onPos u s p) m =
                  (if real m - (if rolloutChecked u then 0.3048 else 0) \<le> cumulative (onPos u s p)
                   then Some \<lparr>mk_time = (now p - t0) / 1000, mk_speed = smoothedOf s p\<rparr>
                   else None)"
    if r: "running s" and n: "marks s m = None"
  proof -
    from inv r have a: "\<not> finished s" "armed s" "startPos s \<noteq> None"
      and "startTime s \<noteq> None" by (simp_all add: run_inv_def)
    then obtain t0 where t0: "startTime s = Some t0" by blast
    show ?thesis
      using assms(2) n t0
      by (simp add: onPos_running_fields(1,2) [OF a r] captureMarks_apply elapsedOf_def
          rolloutOffsetOf_def ROLL_OUT_M_def)
  qed
  show ?thesis
    using 1 onPos_marks_not_running [OF inv] onPos_marks_kept [OF inv]
      feed_marks_kept [OF assms(1)]
    by blast
qed

subsection \<open>The session continued\<close>

lemma s_started_facts:
  "\<not> finished s_started" "armed s_started" "startPos s_started \<noteq> None" "running s_started"
  "lastPos s_started = Some \<lparr>latitude = 1, longitude = 1\<rparr>"
  "cumulative s_started = 0" "startTime s_started = Some 2000"
  "marks s_started = resetMarks"
  "samples s_started = [\<lparr>smp_t = 2000, smp_speed = 4518 / 871\<rparr>]"
  by (simp_all add: s_started_eq)

lemma coords_fixes:
  "coordsOf fix_north = \<lparr>latitude = 1.001, longitude = 1\<rparr>"
  "coordsOf fix_far = \<lparr>latitude = 1.006, longitude = 1\<rparr>"
  "coordsOf fix_south = \<lparr>latitude = 0.9999, longitude = 1\<rparr>"
  "coordsOf fix_back = \<lparr>latitude = 1, longitude = 1\<rparr>"
  by (simp_all add: coordsOf_def fix_north_def fix_far_def fix_south_def fix_back_def)

lemma segment_north: "segment s_started fix_north = 6371 * pi / 180"
proof -
  have "segment s_started fix_north = hav \<lparr>latitude = 1, longitude = 1\<rparr> (coordsOf fix_north)"
    by (rule segment_unfiltered [OF s_started_facts(5)]) (simp_all add: fix_north_def)
  also have "\<dots> = 6371000 * (1.001 - 1) * pi / 180"
    unfolding coords_fixes by (rule hav_meridian) simp_all
  finally show ?thesis by simp
qed

lemma segment_far: "segment s_started fix_far = 6371 * pi / 30"
proof -
  have "segment s_started fix_far = hav \<lparr>latitude = 1, longitude = 1\<rparr> (coordsOf fix_far)"
    by (rule segment_unfiltered [OF s_started_facts(5)]) (simp_all add: fix_far_def)
  also have "\<dots> = 6371000 * (1.006 - 1) * pi / 180"
    unfolding coords_fixes by (rule hav_meridian) simp_all
  finally show ?thesis by simp
qed

lemma segment_south: "segment s_started fix_south = 6371 * pi / 1800"
proof -
  have "segment s_started fix_south = hav \<lparr>latitude = 1, longitude = 1\<rparr> (coordsOf fix_south)"
    by (rule segment_unfiltered [OF s_started_facts(5)]) (simp_all add: fix_south_def)
  also have "\<dots> = hav \<lparr>latitude = 0.9999, longitude = 1\<rparr> \<lparr>latitude = 1, longitude = 1\<rparr>"
    unfolding coords_fixes by (rule hav_sym)
  also have "\<dots> = 6371000 * (1 - 0.9999) * pi / 180"
    by (rule hav_meridian) simp_all
  finally show ?thesis by simp
qed

theorem milestone_capture_once_witness:
  "reachable s_started \<and> running s_started \<and> marks s_started 20 = None
   \<and> marks (onPos page_402 s_started fix_north) 20
       = Some \<lparr>mk_time = 1, mk_speed = smoothedOf s_started fix_north\<rparr>
   \<and> marks (onPos page_402 s_started fix_north) 402 = None
   \<and> marks (onPos page_402 (onPos page_402 s_started fix_north) fix_back) 20
       = Some \<lparr>mk_time = 1, mk_speed = smoothedOf s_started fix_north\<rparr>"
proof -
  define d where "d = 6371 * pi / 180"
  have d: "20 \<le> d" "\<not> 402 \<le> d" using pi_ge_two pi_less_4 by (simp_all add: d_def)
  have c: "cumulative (onPos page_402 s_started fix_north) = d"
    by (simp add: onPos_running_fields(1) [OF s_started_facts(1-4)] s_started_facts(6)
        segment_north d_def)
  have u: "\<not> rolloutChecked page_402" by (simp add: rolloutChecked_def page_402_def)
  have m: "20 \<in> set MILESTONES" "402 \<in> set MILESTONES" by (simp_all add: MILESTONES_def)
  have n: "marks s_started 20 = None" "marks s_started 402 = None"
    by (simp_all add: s_started_facts(8) resetMarks_None)
  have t: "now fix_north = 3000" by (simp add: fix_north_def)
  have 1: "marks (onPos page_402 s_started fix_north) 20
       = Some \<lparr>mk_time = 1, mk_speed = smoothedOf s_started fix_north\<rparr>"
    using milestone_capture_once [OF reachable_s_started(3) m(1), of page_402 fix_north]
    by (simp add: s_started_facts(4,7) n c u t d)
  have 2: "marks (onPos page_402 s_started fix_north) 402 = None"
    using milestone_capture_once [OF reachable_s_started(3) m(2), of page_402 fix_north]
    by (simp add: s_started_facts(4,7) n c u t d)
  have r: "reachable (onPos page_402 s_started fix_north)"
    using reachable_s_started(3) by (rule reach_onPos)
  have 3: "marks (onPos page_402 (onPos page_402 s_started fix_north) fix_back) 20
       = Some \<lparr>mk_time = 1, mk_speed = smoothedOf s_started fix_north\<rparr>"
    using milestone_capture_once [OF r m(1), where u = page_402 and p = fix_back] 1 by simp
  show ?thesis using 1 2 3 reachable_s_started(3) s_started_facts(4) n(1) by simp
qed

section \<open>Stop condition of mode 60-100\<close>

lemma slice_last_short: "length xs \<le> n \<Longrightarrow> slice_last n xs = xs"
  by (simp add: slice_last_def)

text \<open>
  Claim C9, as amended. In a reachable running state with mode 60-100 selected, a sample
  finishes the run exactly when the distance accumulated up to and including this
  sample has reached 402 m minus the rollout offset (the 402 m milestone, which ends a
  run in every mode), or the last ten entries of the rolling buffer (this sample pushed,
  entries older than three seconds dropped) contain a speed of at least 60 km/h and a
  speed of at least 100 km/h.
\<close>

theorem mode_60_100_finish:
  assumes "reachable s" "running s" "modeSelect u = Some ''60-100''"
  shows "finished (onPos u s p) \<longleftrightarrow>
           402 - (if rolloutChecked u then 0.3048 else 0) \<le> cumulative (onPos u s p)
           \<or> ((\<exists>x\<in>set (slice_last 10 (samples (onPos_sense s p))). 60 \<le> smp_speed x)
              \<and> (\<exists>x\<in>set (slice_last 10 (samples (onPos_sense s p))). 100 \<le> smp_speed x))"
proof -
  from reachable_run_inv [OF assms(1)] assms(2)
  have a: "\<not> finished s" "armed s" "startPos s \<noteq> None" and n: "marks s 402 = None"
    by (simp_all add: run_inv_def)
  have m: "modeFinish u (runStep u s p) (rolloutOffsetOf u) \<longleftrightarrow>
             (\<exists>x\<in>set (slice_last 10 (samples (onPos_sense s p))). 60 \<le> smp_speed x)
              \<and> (\<exists>x\<in>set (slice_last 10 (samples (onPos_sense s p))). 100 \<le> smp_speed x)"
    using assms(3) by (simp add: modeFinish_def Let_def list_ex_iff)
  show ?thesis
    unfolding onPos_running_fields(3) [OF a assms(2)] m
    by (simp add: onPos_running_fields(1,2) [OF a assms(2)] captureMarks_apply n
        MILESTONES_def rolloutOffsetOf_def ROLL_OUT_M_def)
qed

lemma sense_far:
  "samples (onPos_sense s_started fix_far) = [\<lparr>smp_t = 24000, smp_speed = smoothedOf s_started fix_far\<rparr>]"
  "smoothedOf s_started fix_far < 60"
  unfolding sense_samples
  unfolding s_started_eq
  by (simp_all add: smoothedOf_def onPos_measure_def ghostFilter_def onPos_kalman_def
        onPos_smoothed_def kalman_update_def kalman_predict_def lowPass_def Let_def
        fix_far_def CONFIG_defs onPos_dtMs_def truthy_def)

theorem mode_60_100_finish_counterexample:
  "running s_started \<and> modeSelect page_60_100 = Some ''60-100''
   \<and> finished (onPos page_60_100 s_started fix_far)
   \<and> \<not> list_ex (\<lambda>x. 60 \<le> smp_speed x) (samples (onPos_sense s_started fix_far))
   \<and> \<not> list_ex (\<lambda>x. 100 \<le> smp_speed x) (samples (onPos_sense s_started fix_far))"
proof -
  define d where "d = 6371 * pi / 30"
  have d: "402 \<le> d" using pi_ge_two by (simp add: d_def)
  have g: "segment s_started fix_far = d" by (simp add: segment_far d_def)
  have u: "rolloutOffsetOf page_60_100 = 0"
    by (simp add: rolloutOffsetOf_def rolloutChecked_def page_60_100_def)
  have "marks (onPos page_60_100 s_started fix_far) 402 \<noteq> None"
    by (simp add: onPos_running_fields(2) [OF s_started_facts(1-4)] captureMarks_apply
        MILESTONES_def s_started_facts(6,8) resetMarks_None g u d)
  then have "finished (onPos page_60_100 s_started fix_far)"
    by (simp add: onPos_running_fields(3) [OF s_started_facts(1-4)])
  then show ?thesis
    using sense_far(2) by (simp add: s_started_facts(4) sense_far(1)) (simp add: page_60_100_def)
qed


theorem mode_60_100_finish_witness:
  "reachable s_started \<and> running s_started \<and> modeSelect page_60_100 = Some ''60-100''
   \<and> \<not> finished (onPos page_60_100 s_started fix_north)"
proof -
  define d where "d = 6371 * pi / 180"
  have d: "\<not> 402 \<le> d" using pi_less_4 by (simp add: d_def)
  have c: "cumulative (onPos page_60_100 s_started fix_north) = d"
    by (simp add: onPos_running_fields(1) [OF s_started_facts(1-4)] s_started_facts(6)
        segment_north d_def)
  have u: "\<not> rolloutChecked page_60_100" "modeSelect page_60_100 = Some ''60-100''"
    by (simp_all add: rolloutChecked_def page_60_100_def)
  have b: "samples (onPos_sense s_started fix_north)
           = [\<lparr>smp_t = 2000, smp_speed = 4518 / 871\<rparr>,
              \<lparr>smp_t = 3000, smp_speed = smoothedOf s_started fix_north\<rparr>]"
    "smoothedOf s_started fix_north < 60"
    unfolding sense_samples
    unfolding s_started_eq
    by (simp_all add: smoothedOf_def onPos_measure_def ghostFilter_def onPos_kalman_def
        onPos_smoothed_def kalman_update_def kalman_predict_def lowPass_def Let_def
        fix_north_def CONFIG_defs onPos_dtMs_def truthy_def)
  show ?thesis
    using mode_60_100_finish [OF reachable_s_started(3) s_started_facts(4) u(2), of fix_north]
      b(2)
    by (simp add: c d u b(1) slice_last_short reachable_s_started(3) s_started_facts(4))
qed

section \<open>Speed reconstruction\<close>

text \<open>For a fix whose latitude and longitude are both different from zero the
  reconstruction block does what is described: it rebuilds the speed exactly when the
  reading is absent or below 0.5 km/h, a previous position exists, the gap to the last
  buffered sample is in \<open>(0, 1200]\<close> ms and the heading check accepts.\<close>

lemma e_locked_eq:
  "e_locked = \<lparr>watchId = True, armed = True, running = False, finished = False,
      startPos = Some \<lparr>latitude = 0.00001, longitude = 1\<rparr>,
      lastPos = Some \<lparr>latitude = 0.00001, longitude = 1\<rparr>, lastHeading = None,
      cumulative = 0, startTime = None, peakSpeed = 0,
      samples = [\<lparr>smp_t = 1000, smp_speed = 0\<rparr>],
      graphSamples = [\<lparr>smp_t = 1000, smp_speed = 0\<rparr>], marks = resetMarks,
      kalmanState = \<lparr>k_x = 0, k_p = 1, k_q = 1 / 10, k_r = 2\<rparr>,
      lastRun = None, status = ArmedWaitingThrottle\<rparr>"
  unfolding e_locked_def s_armed_eq
  by (simp add: onPos_def onPos_lifecycle_def onPos_sense_def smoothedOf_def onPos_measure_def
      ghostFilter_def onPos_kalman_def onPos_smoothed_def lowPass_def Let_def
      fix_near_equator_def coordsOf_def CONFIG_defs onPos_dtMs_def)

lemma speed_rebuilt:
  assumes "lastPos s = Some a" "latitude p \<noteq> 0" "longitude p \<noteq> 0"
    and "speed p = None \<or> (\<exists>v. speed p = Some v \<and> v * 3.6 < 0.5)"
    and "0 < onPos_dtMs s p" "onPos_dtMs s p \<le> 1200"
    and "onPos_headingOk s a (coordsOf p)"
  shows "fst (onPos_measure s p) = Some (hav a (coordsOf p) / (onPos_dtMs s p / 1000) * 3.6)"
  using assms
  by (auto simp add: onPos_measure_def Let_def truthy_def rebuildSpeedFromDelta_def
      REBUILD_SPEED_MAX_DT_def)

lemma speed_not_rebuilt:
  assumes "lastPos s = None \<or> (\<exists>v. speed p = Some v \<and> 0.5 \<le> v * 3.6)
           \<or> \<not> 0 < onPos_dtMs s p \<or> \<not> onPos_dtMs s p \<le> 1200
           \<or> (\<exists>a. lastPos s = Some a \<and> \<not> onPos_headingOk s a (coordsOf p))"
  shows "fst (onPos_measure s p) = map_option (\<lambda>v. v * 3.6) (speed p)"
  using assms
  by (auto simp add: onPos_measure_def Let_def REBUILD_SPEED_MAX_DT_def split: option.splits)

text \<open>
  Claim C6, the handler at a fix on the equator. In the second session the previous
  position exists, the fix carries no speed reading, the gap is 1000 ms and the heading
  check accepts (no bearing is remembered); yet the guard \<open>c.latitude && c.longitude\<close>
  is false for latitude 0, the measured speed stays absent and the Kalman filter is not
  updated.
\<close>

theorem no_speed_rebuilt_on_equator:
  "reachable e_locked
   \<and> lastPos e_locked = Some \<lparr>latitude = 0.00001, longitude = 1\<rparr>
   \<and> speed fix_on_equator = None
   \<and> onPos_dtMs e_locked fix_on_equator = 1000
   \<and> onPos_headingOk e_locked \<lparr>latitude = 0.00001, longitude = 1\<rparr> (coordsOf fix_on_equator)
   \<and> fst (onPos_measure e_locked fix_on_equator) = None
   \<and> kalmanState (onPos page_402 e_locked fix_on_equator) = kalmanState e_locked"
proof -
  have r: "reachable e_locked"
    unfolding e_locked_def using reachable_s_started(1) by (rule reach_onPos)
  have m: "fst (onPos_measure e_locked fix_on_equator) = None"
    unfolding e_locked_eq
    by (simp add: onPos_measure_def Let_def truthy_def fix_on_equator_def)
  have nf: "\<not> finished e_locked" by (simp add: e_locked_eq)
  have k: "kalmanState (onPos page_402 e_locked fix_on_equator) = kalmanState e_locked"
    by (simp add: onPos_kalmanState [OF nf] sense_kalman m ghostFilter_def onPos_kalman_def)
  show ?thesis
    using r m k
    by (simp add: e_locked_eq onPos_dtMs_def onPos_headingOk_def fix_on_equator_def)
qed

section \<open>The heading filter of the distance\<close>

text \<open>Taken alone, the distance block refuses a segment whose bearing differs from
  the remembered one by more than 25 degrees and accepts one when nothing is remembered
  (\<open>onPos_delta_gate\<close>). In the handler it runs after the reconstruction block has
  stored the bearing of this very segment, so that it compares the bearing with itself
  (\<open>segment_unfiltered\<close>).\<close>

lemma onPos_delta_gate:
  "onPos_delta (Some a) None cur = (hav a cur, Some (headingDeg a cur))"
  "headingDiff (headingDeg a cur) h > 25 \<Longrightarrow>
     onPos_delta (Some a) (Some h) cur = (0, Some (headingDeg a cur))"
  "headingDiff (headingDeg a cur) h \<le> 25 \<Longrightarrow>
     onPos_delta (Some a) (Some h) cur = (hav a cur, Some (headingDeg a cur))"
  by (simp_all add: onPos_delta_def Let_def HEADING_MAX_DEG_def)

lemma s_south_facts:
  "\<not> finished s_south" "armed s_south" "startPos s_south \<noteq> None" "running s_south"
  "lastPos s_south = Some \<lparr>latitude = 0.9999, longitude = 1\<rparr>"
  "lastHeading s_south = Some 180"
  "cumulative s_south = 6371 * pi / 1800"
proof -
  define d where "d = 6371 * pi / 1800"
  have d: "\<not> 402 \<le> d" "\<not> 20 \<le> d" "\<not> 100 \<le> d" "\<not> 201 \<le> d"
    using pi_less_4 by (simp_all add: d_def)
  have g: "segment s_started fix_south = d" by (simp add: segment_south d_def)
  have u: "rolloutOffsetOf page_402 = 0" "modeSelect page_402 = Some ''402''"
    by (simp_all add: rolloutOffsetOf_def rolloutChecked_def page_402_def)
  note f = onPos_running_fields [OF s_started_facts(1-4), of page_402 fix_south]
  have m: "marks (onPos page_402 s_started fix_south) 402 = None"
    by (simp add: f(2) captureMarks_apply s_started_facts(6,8) resetMarks_None g u d)
  have "\<not> modeFinish page_402 (runStep page_402 s_started fix_south) 0"
    by (simp add: modeFinish_def u s_started_facts(6) g d)
  then have nf: "\<not> finished (onPos page_402 s_started fix_south)"
    by (simp add: f(3) m u)
  then show "\<not> finished s_south" by (simp add: s_south_def)
  from f(5) [OF nf] show "armed s_south" "running s_south" "startPos s_south \<noteq> None"
    by (simp_all add: s_south_def s_started_facts)
  show "lastPos s_south = Some \<lparr>latitude = 0.9999, longitude = 1\<rparr>"
    by (simp add: s_south_def f(4) coords_fixes)
  have "newHeading s_started fix_south
        = Some (headingDeg \<lparr>latitude = 1, longitude = 1\<rparr> (coordsOf fix_south))"
    by (rule newHeading_unfiltered [OF s_started_facts(5)]) (simp_all add: fix_south_def)
  also have "\<dots> = Some 180"
    unfolding coords_fixes by (simp add: headingDeg_south)
  finally show "lastHeading s_south = Some 180"
    using f(5) [OF nf] by (simp add: s_south_def)
  show "cumulative s_south = 6371 * pi / 1800"
    by (simp add: s_south_def f(1) s_started_facts(6) segment_south)
qed

text \<open>
  Claim C7, the handler at a reversal. In the first session the rider has gone 11 m to
  the south (remembered bearing 180) and the next fix is back at the start (bearing 0,
  angular difference 180). The segment is added to \<open>cumulative\<close> in full; the bearing
  memory is updated to the new bearing.
\<close>

theorem heading_reversal_still_counted:
  "reachable s_south \<and> running s_south
   \<and> lastPos s_south = Some \<lparr>latitude = 0.9999, longitude = 1\<rparr>
   \<and> lastHeading s_south = Some 180
   \<and> headingDeg \<lparr>latitude = 0.9999, longitude = 1\<rparr> (coordsOf fix_back) = 0
   \<and> headingDiff 0 180 = 180
   \<and> cumulative s_south = 6371 * pi / 1800
   \<and> cumulative (onPos page_402 s_south fix_back) = 6371 * pi / 1800 + 6371 * pi / 1800
   \<and> lastHeading (onPos page_402 s_south fix_back) = Some 0"
proof -
  have r: "reachable s_south"
    unfolding s_south_def using reachable_s_started(3) by (rule reach_onPos)
  have h: "headingDeg \<lparr>latitude = 0.9999, longitude = 1\<rparr> (coordsOf fix_back) = 0"
    unfolding coords_fixes by (rule headingDeg_north) simp_all
  have hd: "headingDiff 0 180 = 180"
    by (simp add: headingDiff_def js_mod_def js_trunc_def)
  have "segment s_south fix_back = hav \<lparr>latitude = 0.9999, longitude = 1\<rparr> (coordsOf fix_back)"
    by (rule segment_unfiltered [OF s_south_facts(5)]) (simp_all add: fix_back_def)
  also have "\<dots> = 6371000 * (1 - 0.9999) * pi / 180"
    unfolding coords_fixes by (rule hav_meridian) simp_all
  finally have g: "segment s_south fix_back = 6371 * pi / 1800" by simp
  note f = onPos_running_fields [OF s_south_facts(1-4), of page_402 fix_back]
  have c: "cumulative (onPos page_402 s_south fix_back) = 6371 * pi / 1800 + 6371 * pi / 1800"
    by (simp only: f(1) s_south_facts(7) g)
  define d where "d = 6371 * pi / 1800 + 6371 * pi / 1800"
  have d: "\<not> 402 \<le> d" using pi_less_4 by (simp add: d_def)
  have cs: "cumulative s_south + segment s_south fix_back = d"
    by (simp only: d_def s_south_facts(7) g)
  have u: "rolloutOffsetOf page_402 = 0" "modeSelect page_402 = Some ''402''"
    by (simp_all add: rolloutOffsetOf_def rolloutChecked_def page_402_def)
  have n: "marks s_south 402 = None"
    using reachable_run_inv [OF r] s_south_facts(4) by (simp add: run_inv_def)
  have m: "marks (onPos page_402 s_south fix_back) 402 = None"
    by (simp add: f(2) captureMarks_apply n u cs d)
  have "\<not> modeFinish page_402 (runStep page_402 s_south fix_back) 0"
    by (simp add: modeFinish_def u cs d)
  then have nf: "\<not> finished (onPos page_402 s_south fix_back)"
    by (simp add: f(3) m u)
  have "newHeading s_south fix_back
        = Some (headingDeg \<lparr>latitude = 0.9999, longitude = 1\<rparr> (coordsOf fix_back))"
    by (rule newHeading_unfiltered [OF s_south_facts(5)]) (simp_all add: fix_back_def)
  then have l: "lastHeading (onPos page_402 s_south fix_back) = Some 0"
    using f(5) [OF nf] h by simp
  show ?thesis
    using r s_south_facts(4,5,6,7) h hd c l by simp
qed

section \<open>The frozen run\<close>

lemma feed_finished: "finished s \<Longrightarrow> feed s ups = s"
  unfolding feed_def by (induction ups) (simp_all add: onPos_finished split_def)

lemma onPos_running_kept:
  assumes "\<not> finished s" "armed s" "startPos s \<noteq> None" "running s"
  shows "startTime (onPos u s p) = startTime s"
    and "peakSpeed (onPos u s p) = peakSpeed (onPos_sense s p)"
proof -
  show "startTime (onPos u s p) = startTime s"
    by (cases rule: onPos_cases [of s u p]) (use assms in simp_all)
  show "peakSpeed (onPos u s p) = peakSpeed (onPos_sense s p)"
    by (cases rule: onPos_cases [of s u p]) (use assms in simp_all)
qed

lemma sense_peakSpeed:
  "peakSpeed (onPos_sense s p)
   = (case ghostFilter (fst (onPos_measure s p)) of
        Some v \<Rightarrow> if v > peakSpeed s then v else peakSpeed s
      | None \<Rightarrow> peakSpeed s)"
  by (simp add: onPos_sense_def Let_def)

lemma s_finished_facts:
  "reachable s_finished" "finished s_finished"
  "cumulative s_finished = 6371 * pi / 30"
  "startTime s_finished = Some 2000"
  "peakSpeed s_finished = 72"
  "marks s_finished 20 = Some \<lparr>mk_time = 22, mk_speed = smoothedOf s_started fix_far\<rparr>"
  "marks s_finished 402 = Some \<lparr>mk_time = 22, mk_speed = smoothedOf s_started fix_far\<rparr>"
proof -
  define d where "d = 6371 * pi / 30"
  have d: "402 \<le> d" "20 \<le> d" using pi_ge_two by (simp_all add: d_def)
  have g: "segment s_started fix_far = d" by (simp add: segment_far d_def)
  have u: "rolloutOffsetOf page_402 = 0"
    by (simp add: rolloutOffsetOf_def rolloutChecked_def page_402_def)
  have e: "elapsedOf s_started fix_far = 22"
    by (simp add: elapsedOf_def s_started_facts(7) fix_far_def)
  note f = onPos_running_fields [OF s_started_facts(1-4), of page_402 fix_far]
  note k = onPos_running_kept [OF s_started_facts(1-4), of page_402 fix_far]
  show "reachable s_finished"
    unfolding s_finished_def using reachable_s_started(3) by (rule reach_onPos)
  show m20: "marks s_finished 20 = Some \<lparr>mk_time = 22, mk_speed = smoothedOf s_started fix_far\<rparr>"
    by (simp add: s_finished_def f(2) captureMarks_apply MILESTONES_def s_started_facts(6,8)
        resetMarks_None g u d e)
  show m402: "marks s_finished 402 = Some \<lparr>mk_time = 22, mk_speed = smoothedOf s_started fix_far\<rparr>"
    by (simp add: s_finished_def f(2) captureMarks_apply MILESTONES_def s_started_facts(6,8)
        resetMarks_None g u d e)
  from m402 show "finished s_finished"
    by (simp add: s_finished_def f(3))
  show "cumulative s_finished = 6371 * pi / 30"
    by (simp add: s_finished_def f(1) s_started_facts(6) segment_far)
  show "startTime s_finished = Some 2000"
    by (simp add: s_finished_def k(1) s_started_facts(7))
  have ms: "fst (onPos_measure s_started fix_far) = Some 72"
    using speed_not_rebuilt [of s_started fix_far] by (simp add: fix_far_def)
  have ps: "peakSpeed s_started = 4518 / 871" by (simp add: s_started_eq)
  show "peakSpeed s_finished = 72"
    by (simp add: s_finished_def k(2) sense_peakSpeed ms ps ghostFilter_def
        GHOST_THRESHOLD_KMH_def)
qed

lemma finished_cleared:
  "\<not> finished (stop s)" "\<not> finished (resetAll s)"
  "armed s \<or> geolocation \<Longrightarrow> \<not> finished (arm geolocation s)"
  by (auto simp add: stop_def resetAll_def resetUI_def arm_def)

text \<open>
  Claim C1, as amended. While the \<open>finished\<close> flag is set (\<open>finishRun\<close> sets it; \<open>arm\<close>,
  \<open>stop\<close> and \<open>resetAll\<close> clear it), the handler returns at once: one more sample, or
  any number of them, leaves the whole state as it was, so the flag stays set and
  \<open>cumulative\<close>, \<open>startTime\<close>, \<open>peakSpeed\<close> and \<open>marks\<close> do not change.
\<close>

theorem finished_run_is_frozen:
  "finished s \<Longrightarrow>
     onPos u s p = s \<and> feed s ups = s
     \<and> finished (feed s ups) \<and> cumulative (feed s ups) = cumulative s
     \<and> startTime (feed s ups) = startTime s \<and> peakSpeed (feed s ups) = peakSpeed s
     \<and> marks (feed s ups) = marks s"
  by (simp add: onPos_finished feed_finished)

text \<open>The witness is the finished run of the first session: 667 m, peak 72 km/h, all
  four milestones captured at 22 s.\<close>

theorem finished_run_is_frozen_witness:
  "reachable s_finished \<and> finished s_finished
   \<and> cumulative s_finished = 6371 * pi / 30 \<and> startTime s_finished = Some 2000
   \<and> peakSpeed s_finished = 72
   \<and> marks s_finished 402 = Some \<lparr>mk_time = 22, mk_speed = smoothedOf s_started fix_far\<rparr>
   \<and> onPos page_402 s_finished fix_late = s_finished
   \<and> feed s_finished [(page_402, fix_late), (page_60_100, fix_back)] = s_finished
   \<and> peakSpeed (feed s_finished [(page_402, fix_late), (page_60_100, fix_back)]) = 72"
  using finished_run_is_frozen [OF s_finished_facts(2), of page_402 fix_late
      "[(page_402, fix_late), (page_60_100, fix_back)]"]
    s_finished_facts
  by simp

text \<open>The freeze does not last until the next \<open>arm\<close>: \<open>stop\<close> clears the flag as well,
  and a sample that arrives after it is processed up to the test of \<open>armed\<close>, which is
  after the update of \<open>peakSpeed\<close>. Here the finished run has peak 72 km/h; after
  \<open>stop\<close>, with no \<open>arm\<close> in between, a fix reporting 30 m/s raises it to 108.\<close>

theorem finished_run_is_frozen_counterexample:
  "reachable s_finished \<and> finished s_finished \<and> peakSpeed s_finished = 72
   \<and> reachable (stop s_finished) \<and> \<not> armed (stop s_finished)
   \<and> peakSpeed (stop s_finished) = 72
   \<and> peakSpeed (onPos page_402 (stop s_finished) fix_late) = 108"
proof -
  have r: "reachable (stop s_finished)" using s_finished_facts(1) by (rule reach_stop)
  have a: "\<not> finished (stop s_finished)" "\<not> armed (stop s_finished)"
    "peakSpeed (stop s_finished) = 72"
    by (simp_all add: stop_def s_finished_facts(5))
  have m: "fst (onPos_measure (stop s_finished) fix_late) = Some 108"
    using speed_not_rebuilt [of "stop s_finished" fix_late] by (simp add: fix_late_def)
  have "peakSpeed (onPos page_402 (stop s_finished) fix_late) = 108"
    by (simp add: onPos_unarmed [OF a(1,2)] sense_peakSpeed m ghostFilter_def
        GHOST_THRESHOLD_KMH_def a(3))
  then show ?thesis using r a s_finished_facts(1,2,5) by simp
qed


end
